theory Spec2Isabelle
  imports Complex_Main "HOL-Library.Sublist"
begin

section \<open>Scenario scripts (simulation.js, getScenarioEvents)\<close>

text \<open>
  A script event is the object literal of the source: \<open>time\<close>, \<open>type\<close> and \<open>message\<close>
  are always present, \<open>defense\<close> and \<open>effectiveness\<close> only on some events. An absent
  property is \<open>None\<close>.
\<close>

record event =
  time :: string
  etype :: string
  message :: string
  defense :: "string option"
  effectiveness :: "string option"

definition ev :: "string \<Rightarrow> string \<Rightarrow> string \<Rightarrow> event" where
  "ev t ty m = \<lparr>time = t, etype = ty, message = m, defense = None, effectiveness = None\<rparr>"

definition evd :: "string \<Rightarrow> string \<Rightarrow> string \<Rightarrow> string \<Rightarrow> event" where
  "evd t m d e = \<lparr>time = t, etype = ''defense'', message = m, defense = Some d, effectiveness = Some e\<rparr>"

definition ransomware_events :: "event list" where
  "ransomware_events =
    [ev ''00:00'' ''attack'' ''Initial access attempt detected via phishing email with malicious attachment'',
     evd ''00:05'' ''Email filtering identified suspicious attachment pattern'' ''Email scanning'' ''Medium'',
     ev ''00:10'' ''attack'' ''User opened malicious attachment on Workstation 2'',
     ev ''00:12'' ''attack'' ''Malware establishes connection to command and control server'',
     evd ''00:15'' ''Unusual network connection attempt detected'' ''Network monitoring'' ''High'',
     evd ''00:18'' ''Connection to known malicious IP blocked'' ''Firewall rule'' ''High'',
     ev ''00:25'' ''attack'' ''Malware attempting to escalate privileges on Workstation 2'',
     ev ''00:30'' ''attack'' ''Lateral movement attempt detected from Workstation 2 to Admin machine'',
     evd ''00:35'' ''Lateral movement partially blocked'' ''Network segmentation'' ''Medium'',
     ev ''00:40'' ''attack'' ''Ransomware payload trying to access file shares'',
     evd ''00:42'' ''Abnormal file access pattern detected'' ''Behavior analysis'' ''High'',
     evd ''00:45'' ''File encryption attempt blocked on network shares'' ''Access control'' ''High'',
     ev ''00:50'' ''attack'' ''Encryption of local files in progress on Workstation 2'',
     evd ''00:55'' ''Process terminated based on behavior pattern'' ''Endpoint protection'' ''Medium'',
     ev ''01:00'' ''network'' ''Isolating Workstation 2 from network to prevent further spread'',
     evd ''01:05'' ''System restoration from backup initiated for Workstation 2'' ''Recovery protocol'' ''High'']"

definition ddos_events :: "event list" where
  "ddos_events =
    [ev ''00:00'' ''network'' ''Unusual increase in traffic detected on external interfaces'',
     ev ''00:05'' ''attack'' ''Potential DDoS attack starting - SYN flood pattern detected'',
     evd ''00:08'' ''Rate limiting applied to suspicious traffic sources'' ''Traffic shaping'' ''Medium'',
     ev ''00:12'' ''attack'' ''Attack ramping up - multiple attack vectors detected'',
     ev ''00:15'' ''network'' ''Web servers experiencing increased load'',
     evd ''00:18'' ''Traffic analysis identifies botnet sources'' ''Threat intelligence'' ''High'',
     ev ''00:22'' ''attack'' ''Layer 7 attack targeting authentication endpoints'',
     evd ''00:25'' ''Web application firewall rules updated'' ''WAF rules'' ''High'',
     ev ''00:30'' ''network'' ''Activating additional capacity to absorb attack'',
     evd ''00:35'' ''DDoS mitigation service engaged'' ''Cloud mitigation'' ''High'',
     ev ''00:40'' ''attack'' ''Attack shifting to DNS amplification'',
     evd ''00:45'' ''DNS filtering implemented'' ''DNS protection'' ''Medium'',
     ev ''00:50'' ''network'' ''Traffic levels beginning to normalize'',
     evd ''00:55'' ''Blocking traffic from 150 identified attack sources'' ''IP blocking'' ''High'',
     ev ''01:00'' ''network'' ''Service availability restored to normal levels'',
     evd ''01:05'' ''Post-attack analysis and rule optimization initiated'' ''Forensics'' ''High'']"

definition data_exfiltration_events :: "event list" where
  "data_exfiltration_events =
    [ev ''00:00'' ''attack'' ''Suspicious login detected from unusual location'',
     evd ''00:05'' ''Multi-factor authentication challenge issued'' ''MFA'' ''High'',
     ev ''00:10'' ''attack'' ''Authentication bypass attempt detected'',
     ev ''00:15'' ''attack'' ''Privilege escalation observed via service account compromise'',
     evd ''00:20'' ''Unusual account behavior detected'' ''Behavior monitoring'' ''Medium'',
     ev ''00:25'' ''attack'' ''Database query with excessive data retrieval executed'',
     evd ''00:30'' ''Database activity monitoring alert triggered'' ''DAM'' ''High'',
     ev ''00:35'' ''attack'' ''Data staging observed in temporary directory'',
     ev ''00:40'' ''network'' ''Unusual outbound connection established to unknown external IP'',
     evd ''00:45'' ''Data Loss Prevention system blocked file transfer'' ''DLP'' ''High'',
     ev ''00:50'' ''attack'' ''Attempt to compress and encrypt sensitive data detected'',
     evd ''00:55'' ''File integrity monitoring alert triggered'' ''FIM'' ''Medium'',
     ev ''01:00'' ''network'' ''Suspicious DNS queries detected - potential covert channel'',
     evd ''01:05'' ''DNS exfiltration blocked via pattern matching'' ''DNS filters'' ''High'',
     evd ''01:10'' ''Account access revoked and investigation initiated'' ''Access control'' ''High'',
     evd ''01:15'' ''Security team performed isolation of affected systems'' ''Containment'' ''High'']"

definition default_events :: "event list" where
  "default_events =
    [ev ''00:00'' ''attack'' ''Initial access attempt detected via phishing email with malicious attachment'',
     evd ''00:05'' ''Email filtering identified suspicious attachment pattern'' ''Email scanning'' ''Medium'',
     ev ''00:10'' ''attack'' ''User opened malicious attachment on Workstation 2'',
     evd ''00:15'' ''Endpoint protection blocked initial execution'' ''Endpoint protection'' ''High'']"

text \<open>The \<open>switch\<close> of the source: three named cases and a \<open>default\<close> branch.\<close>

definition getScenarioEvents :: "string \<Rightarrow> event list" where
  "getScenarioEvents scenario =
     (if scenario = ''ransomware'' then ransomware_events
      else if scenario = ''ddos'' then ddos_events
      else if scenario = ''data_exfiltration'' then data_exfiltration_events
      else default_events)"

section \<open>Attack-vector inference (determineAttackVector)\<close>

text \<open>
  \<open>String.prototype.includes\<close>: the needle occurs in the text as a contiguous run of
  characters, compared exactly (upper and lower case differ).
\<close>

fun includes_str :: "string \<Rightarrow> string \<Rightarrow> bool" where
  "includes_str [] needle = (needle = [])"
| "includes_str (c # cs) needle = (prefix needle (c # cs) \<or> includes_str cs needle)"

definition determineAttackVector :: "string \<Rightarrow> string" where
  "determineAttackVector msg =
     (if includes_str msg ''phishing'' then ''Phishing''
      else if includes_str msg ''malicious attachment'' then ''Malicious Attachment''
      else if includes_str msg ''command and control'' then ''C2 Communication''
      else if includes_str msg ''escalate privileges'' then ''Privilege Escalation''
      else if includes_str msg ''lateral movement'' then ''Lateral Movement''
      else if includes_str msg ''file access'' then ''Unauthorized Access''
      else if includes_str msg ''encryption'' then ''Encryption''
      else if includes_str msg ''DDoS'' then ''DDoS''
      else if includes_str msg ''SQL'' then ''SQL Injection''
      else if includes_str msg ''exfiltration'' then ''Data Exfiltration''
      else ''Unknown'')"

section \<open>Topology graph (initNetworkVisualization, resetNetworkVisualization)\<close>

text \<open>
  The graph is the pair of vis.js data sets held by \<open>networkInstance\<close>. A data set is an
  ordered collection of items keyed by a unique id: \<open>get()\<close> lists the items in insertion
  order, and \<open>update\<close> of an object whose id is present overwrites the properties the
  object names (whole values: a \<open>color\<close> object is replaced, not merged) and leaves the
  others; an id that is absent is added as a new item. A property an item does not have
  is \<open>None\<close>. Edges are created without ids, so the data set gives them generated
  ones; the model numbers them by position.
\<close>

type_synonym node_color = "string \<times> string"  \<comment> \<open>background, border\<close>

record node =
  nid :: nat
  label :: "string option"
  shape :: "string option"
  ncolor :: "node_color option"
  icon :: "(string \<times> nat \<times> string) option"  \<comment> \<open>face, code point, color\<close>

datatype dashes_val = NoDashes | DashPattern "nat list"

record edge_color =
  color :: string
  cdashes :: "nat list option"
  cwidth :: "nat option"
  carrows_to :: "bool option"

record edge =
  eid :: nat
  efrom :: nat
  eto :: nat
  ecolor :: "edge_color option"
  dashes :: "dashes_val option"
  width :: "nat option"

record graph =
  nodes :: "node list"
  edges :: "edge list"

definition mk_node :: "nat \<Rightarrow> string \<Rightarrow> string \<Rightarrow> node_color \<Rightarrow> node" where
  "mk_node i l sh c = \<lparr>nid = i, label = Some l, shape = Some sh, ncolor = Some c, icon = None\<rparr>"

definition mk_edge :: "nat \<Rightarrow> nat \<Rightarrow> nat \<Rightarrow> edge" where
  "mk_edge i a b = \<lparr>eid = i, efrom = a, eto = b, ecolor = None, dashes = None, width = None\<rparr>"

definition nominal_color :: node_color where
  "nominal_color = (''#198754'', ''#146c43'')"

definition initial_graph :: graph where
  "initial_graph =
    \<lparr>nodes =
       [mk_node 1 ''Internet'' ''cloud'' (''#6c757d'', ''#495057''),
        mk_node 2 ''Firewall'' ''box'' (''#0d6efd'', ''#0a58ca''),
        mk_node 3 ''Web Server'' ''server'' nominal_color,
        mk_node 4 ''App Server'' ''server'' nominal_color,
        mk_node 5 ''Database'' ''database'' nominal_color,
        \<lparr>nid = 6, label = Some ''Admin'', shape = Some ''icon'', ncolor = None,
          icon = Some (''FontAwesome'', 0xf007, ''#0dcaf0'')\<rparr>,
        mk_node 7 ''Workstation 1'' ''desktop'' nominal_color,
        mk_node 8 ''Workstation 2'' ''desktop'' nominal_color],
     edges =
       [mk_edge 0 1 2, mk_edge 1 2 3, mk_edge 2 2 4, mk_edge 3 3 5,
        mk_edge 4 4 5, mk_edge 5 2 6, mk_edge 6 6 7, mk_edge 7 6 8]\<rparr>"

text \<open>\<open>nodes.update({id: i, color: c})\<close>\<close>

definition update_node :: "nat \<Rightarrow> node_color \<Rightarrow> node list \<Rightarrow> node list" where
  "update_node i c ns =
     (if i \<in> nid ` set ns then map (\<lambda>n. if nid n = i then n\<lparr>ncolor := Some c\<rparr> else n) ns
      else ns @ [\<lparr>nid = i, label = None, shape = None, ncolor = Some c, icon = None\<rparr>])"

text \<open>
  The properties of an edge update object besides its id; \<open>None\<close> is a property the
  object does not name.
\<close>

record edge_patch =
  pcolor :: "edge_color option"
  pdashes :: "dashes_val option"
  pwidth :: "nat option"

definition merge_prop :: "'a option \<Rightarrow> 'a option \<Rightarrow> 'a option" where
  "merge_prop new old = (case new of Some v \<Rightarrow> Some v | None \<Rightarrow> old)"

definition patch_edge :: "edge_patch \<Rightarrow> edge \<Rightarrow> edge" where
  "patch_edge p e =
     e\<lparr>ecolor := merge_prop (pcolor p) (ecolor e),
       dashes := merge_prop (pdashes p) (dashes e),
       width := merge_prop (pwidth p) (width e)\<rparr>"

text \<open>\<open>edges.update({id: i, ...})\<close> for an id taken from the data set itself.\<close>

definition update_edge :: "nat \<Rightarrow> edge_patch \<Rightarrow> edge list \<Rightarrow> edge list" where
  "update_edge i p es = map (\<lambda>e. if eid e = i then patch_edge p e else e) es"

definition plain :: "string \<Rightarrow> edge_color" where
  "plain c = \<lparr>color = c, cdashes = None, cwidth = None, carrows_to = None\<rparr>"

definition color_patch :: "edge_color \<Rightarrow> edge_patch" where
  "color_patch c = \<lparr>pcolor = Some c, pdashes = None, pwidth = None\<rparr>"

text \<open>
  \<open>resetNetworkVisualization\<close>, on the data sets. Each callback of \<open>forEach\<close> updates the
  item it visits (the update carries that item's own id, and ids are unique), and reads
  only the item's id and shape, which no update changes: the loop is a map over the items.
\<close>

definition reset_node :: "node \<Rightarrow> node" where
  "reset_node n =
     (if nid n \<noteq> 1 \<and> nid n \<noteq> 2 then
        (if shape n = Some ''server'' \<or> shape n = Some ''desktop'' \<or> shape n = Some ''database''
         then n\<lparr>ncolor := Some nominal_color\<rparr>
         else if shape n = Some ''icon'' then n\<lparr>ncolor := Some (''#ffffff'', ''#0dcaf0'')\<rparr>
         else n)
      else n)"

definition reset_edge :: "edge \<Rightarrow> edge" where
  "reset_edge e =
     patch_edge \<lparr>pcolor = Some (plain ''#495057''), pdashes = Some NoDashes, pwidth = None\<rparr> e"

definition reset_graph :: "graph \<Rightarrow> graph" where
  "reset_graph g = \<lparr>nodes = map reset_node (nodes g), edges = map reset_edge (edges g)\<rparr>"

section \<open>Graph transition scripts (simulate...Attack)\<close>

text \<open>
  A timer callback of the \<open>simulate...\<close> functions is a sequence of data set updates.
  An edge is addressed as \<open>edges.get()[k].id\<close>: reading \<open>.id\<close> at an index beyond the
  data set raises a TypeError while the update's argument is built, which ends the
  callback and keeps what the earlier statements did.
\<close>

datatype stmt =
  NodesUpdate "(nat \<times> node_color) list"
| EdgesUpdate "(nat \<times> edge_patch) list"

fun run_stmt :: "stmt \<Rightarrow> graph \<Rightarrow> graph option" where
  "run_stmt (NodesUpdate ups) g =
     Some (g\<lparr>nodes := fold (\<lambda>(i, c). update_node i c) ups (nodes g)\<rparr>)"
| "run_stmt (EdgesUpdate ups) g =
     (if \<forall>(k, p) \<in> set ups. k < length (edges g)
      then Some (g\<lparr>edges := fold (\<lambda>(k, p). update_edge (eid (edges g ! k)) p) ups (edges g)\<rparr>)
      else None)"

fun run_stmts :: "stmt list \<Rightarrow> graph \<Rightarrow> graph" where
  "run_stmts [] g = g"
| "run_stmts (st # sts) g = (case run_stmt st g of None \<Rightarrow> g | Some g' \<Rightarrow> run_stmts sts g')"

type_synonym timer = "nat \<times> stmt list"  \<comment> \<open>delay in milliseconds, callback\<close>

definition compromisedStyle :: node_color where
  "compromisedStyle = (''#dc3545'', ''#b02a37'')"

definition atRiskStyle :: node_color where
  "atRiskStyle = (''#fd7e14'', ''#ca6510'')"

definition firewallStyle :: node_color where
  "firewallStyle = (''#0d6efd'', ''#0a58ca'')"

definition dataFlowStyle :: edge_color where
  "dataFlowStyle = \<lparr>color = ''#fd7e14'', cdashes = None, cwidth = Some 3, carrows_to = Some True\<rparr>"

definition simulateRansomwareAttack :: "timer list" where
  "simulateRansomwareAttack =
    [(2000, [NodesUpdate [(8, compromisedStyle)]]),
     (6000, [EdgesUpdate [(6, color_patch (plain ''#dc3545''))],
             NodesUpdate [(6, atRiskStyle)]]),
     (9000, [NodesUpdate [(6, compromisedStyle)],
             NodesUpdate [(7, atRiskStyle)]]),
     (12000, [EdgesUpdate [(2, color_patch (plain ''#fd7e14'')), (3, color_patch (plain ''#fd7e14''))],
              NodesUpdate [(3, atRiskStyle), (4, atRiskStyle)]]),
     (15000, [EdgesUpdate [(6, color_patch ((plain ''#495057'')\<lparr>cdashes := Some [5, 5]\<rparr>))]]),
     (18000, [NodesUpdate [(3, nominal_color), (4, nominal_color)],
              EdgesUpdate [(2, color_patch (plain ''#495057'')), (3, color_patch (plain ''#495057''))]])]"

definition simulateDDoSAttack :: "timer list" where
  "simulateDDoSAttack =
    [(2000, [NodesUpdate [(1, compromisedStyle)],
             EdgesUpdate [(0, color_patch (plain ''#dc3545''))]]),
     (4000, [NodesUpdate [(2, atRiskStyle)]]),
     (6000, [NodesUpdate [(3, atRiskStyle)],
             EdgesUpdate [(1, color_patch (plain ''#dc3545''))]]),
     (9000, [EdgesUpdate [(0, \<lparr>pcolor = None, pdashes = None, pwidth = Some 6\<rparr>)]]),
     (12000, [NodesUpdate [(2, firewallStyle)],
              EdgesUpdate [(0, \<lparr>pcolor = Some (plain ''#0d6efd''), pdashes = None, pwidth = Some 2\<rparr>)]]),
     (15000, [NodesUpdate [(3, nominal_color)],
              EdgesUpdate [(1, color_patch (plain ''#495057''))]])]"

definition simulateDataExfiltration :: "timer list" where
  "simulateDataExfiltration =
    [(2000, [NodesUpdate [(7, compromisedStyle)]]),
     (5000, [EdgesUpdate [(5, color_patch dataFlowStyle)],
             NodesUpdate [(6, compromisedStyle)]]),
     (8000, [EdgesUpdate [(3, color_patch dataFlowStyle)],
             NodesUpdate [(4, compromisedStyle)]]),
     (11000, [EdgesUpdate [(4, color_patch dataFlowStyle)],
              NodesUpdate [(5, compromisedStyle)]]),
     (14000, [EdgesUpdate [(2, color_patch dataFlowStyle), (1, color_patch dataFlowStyle),
                           (0, color_patch dataFlowStyle)]]),
     (17000, [EdgesUpdate [(0, \<lparr>pcolor = Some (plain ''#495057''), pdashes = Some (DashPattern [5, 5]),
                                 pwidth = None\<rparr>)],
              NodesUpdate [(2, firewallStyle)]])]"

definition simulateGenericAttack :: "timer list" where
  "simulateGenericAttack =
    [(3000, [NodesUpdate [(8, compromisedStyle)]]),
     (6000, [NodesUpdate [(2, firewallStyle)]]),
     (9000, [NodesUpdate [(8, nominal_color)]])]"

text \<open>The \<open>switch\<close> of \<open>updateNetworkForScenario\<close>.\<close>

definition scenario_timers :: "string \<Rightarrow> timer list" where
  "scenario_timers scenario =
     (if scenario = ''ransomware'' then simulateRansomwareAttack
      else if scenario = ''ddos'' then simulateDDoSAttack
      else if scenario = ''data_exfiltration'' then simulateDataExfiltration
      else simulateGenericAttack)"

text \<open>
  The graphs that can arise: the initial one, and what any callback of any scenario script
  or a reset makes of a graph that can arise. (Timers of several runs may be pending at
  once and a reset cancels none of them, so callbacks are taken in any order.)
\<close>

inductive reachable_graph :: "graph \<Rightarrow> bool" where
  initial: "reachable_graph initial_graph"
| fired: "reachable_graph g \<Longrightarrow> (delay, cb) \<in> set (scenario_timers scenario)
          \<Longrightarrow> reachable_graph (run_stmts cb g)"
| reset: "reachable_graph g \<Longrightarrow> reachable_graph (reset_graph g)"

text \<open>What no update in the source writes: identity, label, shape and icon of a node,
  identity and end points of an edge.\<close>

definition node_skeleton :: "node \<Rightarrow> nat \<times> string option \<times> string option \<times> (string \<times> nat \<times> string) option" where
  "node_skeleton n = (nid n, label n, shape n, icon n)"

definition edge_skeleton :: "edge \<Rightarrow> nat \<times> nat \<times> nat" where
  "edge_skeleton e = (eid e, efrom e, eto e)"

definition graph_skeleton :: "graph \<Rightarrow>
    (nat \<times> string option \<times> string option \<times> (string \<times> nat \<times> string) option) list \<times> (nat \<times> nat \<times> nat) list" where
  "graph_skeleton g = (map node_skeleton (nodes g), map edge_skeleton (edges g))"

text \<open>A statement that addresses nodes by the ids 1 to 8 only.\<close>

fun stmt_ok :: "stmt \<Rightarrow> bool" where
  "stmt_ok (NodesUpdate ups) = list_all (\<lambda>(i, c). 1 \<le> i \<and> i \<le> 8) ups"
| "stmt_ok (EdgesUpdate ups) = True"

section \<open>Page state and the playback controls\<close>

text \<open>
  The state of simulation.js is its two globals (\<open>simulationRunning\<close>,
  \<open>networkInstance\<close>), the parts of the page it writes (button labels and disabled
  flags, the event log, the defense table, the event counter, the results modal), and the
  timers it has scheduled with their closure variables. The page elements the script looks
  up by id are those of the simulation template and are taken to exist.

  The event log element always keeps the placeholder block of the template in front of the
  event items (nothing removes it), so the log is modelled by its event items. The table
  body holds either the placeholder row or the rows of defense actions.

  The template also carries an inline script with handlers of its own on the same buttons;
  it is a separate program and not part of this model.

  Values read from the page or the environment when a handler runs are arguments: the three
  selections of the form, the text of the selected scenario option, and the results of
  \<open>Math.random()\<close>, which are doubles in \<open>[0, 1)\<close>.
\<close>

datatype button_label = LblStart | LblStarting | LblPause | LblResume | LblStartNew

type_synonym toast = "string \<times> string \<times> string"  \<comment> \<open>message, title, type\<close>

record log_item =
  li_time :: string
  li_class :: string
  li_type :: string
  li_message :: string

record defense_row =
  r_time :: string
  r_vector :: string
  r_defense :: string
  r_badge :: string
  r_effectiveness :: string

record interval =
  iv_events :: "event list"
  iv_i :: nat
  iv_eventCount :: nat
  iv_cleared :: bool

record report =
  scenarioName :: string
  duration :: string
  defenseScore :: int
  attackScore :: int

record page =
  simulationRunning :: bool
  networkInstance :: "graph option"
  startLabel :: button_label
  startDisabled :: bool
  resetDisabled :: bool
  logItems :: "log_item list"
  tablePlaceholder :: bool
  tableRows :: "defense_row list"
  eventCounter :: nat
  pendingStarts :: "(string \<times> string \<times> string list) list"
  intervals :: "interval list"
  pendingCompletions :: nat
  graphTimers :: "timer list"
  resultsModal :: "report option"

text \<open>The page as the template delivers it, before any click.\<close>

definition page0 :: page where
  "page0 =
    \<lparr>simulationRunning = False, networkInstance = None, startLabel = LblStart,
     startDisabled = False, resetDisabled = True, logItems = [], tablePlaceholder = True,
     tableRows = [], eventCounter = 0, pendingStarts = [], intervals = [],
     pendingCompletions = 0, graphTimers = [], resultsModal = None\<rparr>"

subsection \<open>Strings\<close>

text \<open>\<open>toUpperCase\<close> on the ASCII letters (the scripts use no others).\<close>

definition char_upper :: "char \<Rightarrow> char" where
  "char_upper c =
     (let n = (of_char c :: nat) in if 97 \<le> n \<and> n \<le> 122 then char_of (n - 32) else c)"

definition toUpperCase :: "string \<Rightarrow> string" where
  "toUpperCase s = map char_upper s"

fun split_underscore :: "string \<Rightarrow> string list" where
  "split_underscore [] = [[]]"
| "split_underscore (c # cs) =
     (if c = CHR ''_'' then [] # split_underscore cs
      else (case split_underscore cs of w # ws \<Rightarrow> (c # w) # ws | [] \<Rightarrow> [[c]]))"

fun join_space :: "string list \<Rightarrow> string" where
  "join_space [] = []"
| "join_space [w] = w"
| "join_space (w # ws) = w @ '' '' @ join_space ws"

definition capitalize :: "string \<Rightarrow> string" where
  "capitalize w = (case w of [] \<Rightarrow> [] | c # cs \<Rightarrow> char_upper c # cs)"

definition formatScenarioName :: "string \<Rightarrow> string" where
  "formatScenarioName scenarioId =
     (if scenarioId = [] then ''Unknown''
      else join_space (map capitalize (split_underscore scenarioId)))"

text \<open>A template literal prints an absent property as \<open>undefined\<close>.\<close>

definition render :: "string option \<Rightarrow> string" where
  "render v = (case v of None \<Rightarrow> ''undefined'' | Some x \<Rightarrow> x)"

text \<open>A property is truthy when it is present and not the empty string.\<close>

definition truthy :: "string option \<Rightarrow> bool" where
  "truthy v = (case v of None \<Rightarrow> False | Some x \<Rightarrow> x \<noteq> [])"

subsection \<open>Event log and defense table\<close>

definition resetSimulationLogs :: "page \<Rightarrow> page" where
  "resetSimulationLogs s =
     s\<lparr>logItems := [], tablePlaceholder := True, tableRows := [], eventCounter := 0\<rparr>"

definition typeClass :: "string \<Rightarrow> string" where
  "typeClass ty =
     (if ty = ''attack'' then ''event-type-attack''
      else if ty = ''defense'' then ''event-type-defense''
      else if ty = ''network'' then ''event-type-network''
      else ''event-type-alert'')"

definition eventItem :: "event \<Rightarrow> log_item" where
  "eventItem e =
     \<lparr>li_time = time e, li_class = typeClass (etype e), li_type = toUpperCase (etype e),
      li_message = message e\<rparr>"

definition badgeClass :: "string option \<Rightarrow> string" where
  "badgeClass eff =
     (if eff = Some ''High'' then ''bg-success''
      else if eff = Some ''Low'' then ''bg-danger''
      else ''bg-warning'')"

definition defenseRow :: "event \<Rightarrow> defense_row" where
  "defenseRow e =
     \<lparr>r_time = time e, r_vector = determineAttackVector (message e),
      r_defense = render (defense e), r_badge = badgeClass (effectiveness e),
      r_effectiveness = render (effectiveness e)\<rparr>"

definition addDefenseAction :: "event \<Rightarrow> page \<Rightarrow> page" where
  "addDefenseAction e s =
     s\<lparr>tablePlaceholder := False,
       tableRows := (if tablePlaceholder s then [] else tableRows s) @ [defenseRow e]\<rparr>"

definition addSimulationEvent :: "event \<Rightarrow> nat \<Rightarrow> page \<Rightarrow> page" where
  "addSimulationEvent e eventCount s =
     (let s1 = s\<lparr>logItems := logItems s @ [eventItem e]\<rparr>
      in if etype e = ''defense'' \<and> truthy (defense e) then addDefenseAction e s1 else s1)"

subsection \<open>Network visualization on the page\<close>

definition initNetworkVisualization :: "page \<Rightarrow> page" where
  "initNetworkVisualization s =
     (case networkInstance s of
        None \<Rightarrow> s\<lparr>networkInstance := Some initial_graph\<rparr>
      | Some g \<Rightarrow> s)"

definition resetNetworkVisualization :: "page \<Rightarrow> page" where
  "resetNetworkVisualization s =
     (case networkInstance s of
        None \<Rightarrow> s
      | Some g \<Rightarrow> s\<lparr>networkInstance := Some (reset_graph g)\<rparr>)"

definition updateNetworkForScenario :: "string \<Rightarrow> page \<Rightarrow> page" where
  "updateNetworkForScenario scenario s =
     (case networkInstance s of
        None \<Rightarrow> s
      | Some g \<Rightarrow> s\<lparr>graphTimers := graphTimers s @ scenario_timers scenario\<rparr>)"

subsection \<open>Controls\<close>

definition pauseSimulation :: "page \<Rightarrow> toast list \<times> page" where
  "pauseSimulation s =
     ([(''Simulation paused. Click Resume to continue.'', ''Simulation'', ''warning'')],
      s\<lparr>simulationRunning := False, startLabel := LblResume\<rparr>)"

definition validationToast :: toast where
  "validationToast = (''Please select at least one target system.'', ''Validation Error'', ''warning'')"

text \<open>
  \<open>startSimulation\<close> up to the point where it schedules the delayed start; the callback of
  that timeout is \<open>startCallback\<close>.
\<close>

definition startSimulation :: "string \<Rightarrow> string \<Rightarrow> string list \<Rightarrow> page \<Rightarrow> toast list \<times> page" where
  "startSimulation scenario difficulty targets s =
     (if simulationRunning s then pauseSimulation s
      else if targets = [] then ([validationToast], s)
      else
        (let s1 = s\<lparr>startDisabled := True, startLabel := LblStarting\<rparr>;
             s2 = initNetworkVisualization (resetSimulationLogs s1)
         in ([], s2\<lparr>pendingStarts := pendingStarts s2 @ [(scenario, difficulty, targets)]\<rparr>)))"

definition new_interval :: "event list \<Rightarrow> interval" where
  "new_interval evs = \<lparr>iv_events = evs, iv_i = 0, iv_eventCount = 0, iv_cleared = False\<rparr>"

text \<open>The \<open>setInterval\<close> of \<open>runSimulation\<close>, for the script it has loaded.\<close>

definition startInterval :: "event list \<Rightarrow> page \<Rightarrow> page" where
  "startInterval evs s = s\<lparr>intervals := intervals s @ [new_interval evs]\<rparr>"

definition runSimulation :: "string \<Rightarrow> string \<Rightarrow> string list \<Rightarrow> page \<Rightarrow> page" where
  "runSimulation scenario difficulty targets s =
     updateNetworkForScenario scenario (startInterval (getScenarioEvents scenario) s)"

definition startCallback :: "string \<times> string \<times> string list \<Rightarrow> page \<Rightarrow> toast list \<times> page" where
  "startCallback cl s =
     (case cl of (scenario, difficulty, targets) \<Rightarrow>
        ([(''Starting '' @ formatScenarioName scenario @ '' simulation on '' @ difficulty @ '' difficulty.'',
           ''Simulation'', ''info'')],
         runSimulation scenario difficulty targets
           (s\<lparr>startLabel := LblPause, startDisabled := False, resetDisabled := False,
              simulationRunning := True\<rparr>)))"

definition resetSimulation :: "page \<Rightarrow> toast list \<times> page" where
  "resetSimulation s =
     ([(''Simulation reset successfully.'', ''Simulation'', ''success'')],
      resetNetworkVisualization
        (resetSimulationLogs
           (s\<lparr>simulationRunning := False, startLabel := LblStart, startDisabled := False,
              resetDisabled := True\<rparr>)))"

subsection \<open>Random numbers and their products\<close>

text \<open>
  \<open>Math.random()\<close> returns an IEEE 754 double that is at least 0 and less than 1. Such a
  number is \<open>m / 2 ^ k\<close> for a mantissa \<open>m\<close> below \<open>2 ^ 53\<close> and an exponent \<open>k\<close> of at most
  1074 (a normal number has \<open>53 \<le> k\<close>, a subnormal one \<open>k = 1074\<close>), and every such quotient
  below 1 is a double.
\<close>

datatype unit_double = Dbl nat nat

fun mantissa :: "unit_double \<Rightarrow> nat" where
  "mantissa (Dbl m k) = m"

fun exponent :: "unit_double \<Rightarrow> nat" where
  "exponent (Dbl m k) = k"

definition is_unit_double :: "unit_double \<Rightarrow> bool" where
  "is_unit_double d =
     (mantissa d < 2 ^ 53 \<and> mantissa d < 2 ^ exponent d \<and> exponent d \<le> 1074)"

definition value_of :: "unit_double \<Rightarrow> real" where
  "value_of d = real (mantissa d) / 2 ^ exponent d"

text \<open>The number of binary digits of \<open>n\<close>.\<close>

fun bit_length :: "nat \<Rightarrow> nat" where
  "bit_length n = (if n = 0 then 0 else Suc (bit_length (n div 2)))"

declare bit_length.simps [simp del]

text \<open>\<open>n / 2 ^ s\<close> rounded to the nearest integer, a tie to the even one.\<close>

definition round_half_even :: "nat \<Rightarrow> nat \<Rightarrow> nat" where
  "round_half_even n s =
     (let q = n div 2 ^ s; r = n mod 2 ^ s
      in if 2 * r < 2 ^ s then q
         else if 2 ^ s < 2 * r then q + 1
         else if even q then q else q + 1)"

text \<open>
  The double product \<open>Math.random() * c\<close> for a small integer constant \<open>c\<close>, as the
  numerator of the result over \<open>2 ^ k\<close>. The exact product is \<open>n / 2 ^ k\<close> with
  \<open>n = c * m\<close>. A double keeps 53 significant bits: when \<open>n\<close> has more, it is rounded to a
  multiple of \<open>2 ^ s\<close>, where \<open>s\<close> is the number of excess bits, to nearest and ties to
  even. When \<open>n\<close> has at most 53 bits the product is a double already (also in the
  subnormal range, whose spacing \<open>2 ^ -1074\<close> is no coarser than \<open>2 ^ -k\<close>), and \<open>s = 0\<close>
  rounds nothing. The products here stay below 51, far from overflow.
\<close>

definition times_double :: "nat \<Rightarrow> unit_double \<Rightarrow> nat" where
  "times_double c d =
     (let n = c * mantissa d; s = bit_length n - 53
      in round_half_even n s * 2 ^ s)"

text \<open>\<open>Math.floor(Math.random() * c)\<close>\<close>

definition floor_times :: "nat \<Rightarrow> unit_double \<Rightarrow> int" where
  "floor_times c d = int (times_double c d div 2 ^ exponent d)"

subsection \<open>Completion and results\<close>

definition showSimulationResults :: "string \<Rightarrow> unit_double \<Rightarrow> unit_double \<Rightarrow> page \<Rightarrow> page" where
  "showSimulationResults name r1 r2 s =
     s\<lparr>resultsModal :=
         Some \<lparr>scenarioName = name, duration = ''1 minute 15 seconds'',
               defenseScore = floor_times 30 r1 + 65, attackScore = floor_times 50 r2 + 20\<rparr>\<rparr>"

definition simulationCompleted :: "string \<Rightarrow> unit_double \<Rightarrow> unit_double \<Rightarrow> page \<Rightarrow> page" where
  "simulationCompleted name r1 r2 s =
     showSimulationResults name r1 r2 (s\<lparr>simulationRunning := False, startLabel := LblStartNew\<rparr>)"

text \<open>
  The callback of the \<open>k\<close>-th interval that \<open>runSimulation\<close> has created. Its closure
  variables \<open>events\<close>, \<open>i\<close> and \<open>eventCount\<close> are the fields of the interval; an interval
  that was cleared does not fire.
\<close>

definition tick :: "nat \<Rightarrow> page \<Rightarrow> page" where
  "tick k s =
     (if k < length (intervals s) \<and> \<not> iv_cleared (intervals s ! k) then
        (let iv = intervals s ! k in
         if \<not> simulationRunning s then s
         else if iv_i iv \<ge> length (iv_events iv) then
           s\<lparr>intervals := (intervals s)[k := iv\<lparr>iv_cleared := True\<rparr>],
             pendingCompletions := pendingCompletions s + 1\<rparr>
         else
           (addSimulationEvent (iv_events iv ! iv_i iv) (iv_eventCount iv) s)
             \<lparr>eventCounter := iv_eventCount iv + 1,
              intervals := (intervals s)[k := iv\<lparr>iv_eventCount := iv_eventCount iv + 1,
                                                 iv_i := iv_i iv + 1\<rparr>]\<rparr>)
      else s)"

subsection \<open>What can happen to the page\<close>

text \<open>
  A click on a button (a disabled button receives none), or one of the pending timers
  firing. The timers are chosen by position, in any order.
\<close>

datatype action =
  ClickStart string string "string list"
| ClickReset
| FireStart nat
| Tick nat
| FireCompleted string unit_double unit_double
| FireGraph nat

definition remove_nth :: "nat \<Rightarrow> 'a list \<Rightarrow> 'a list" where
  "remove_nth k xs = take k xs @ drop (Suc k) xs"

fun step :: "action \<Rightarrow> page \<Rightarrow> page" where
  "step (ClickStart scenario difficulty targets) s =
     (if startDisabled s then s else snd (startSimulation scenario difficulty targets s))"
| "step ClickReset s = (if resetDisabled s then s else snd (resetSimulation s))"
| "step (FireStart k) s =
     (if k < length (pendingStarts s)
      then snd (startCallback (pendingStarts s ! k) (s\<lparr>pendingStarts := remove_nth k (pendingStarts s)\<rparr>))
      else s)"
| "step (Tick k) s = tick k s"
| "step (FireCompleted name r1 r2) s =
     (if 0 < pendingCompletions s
      then simulationCompleted name r1 r2 (s\<lparr>pendingCompletions := pendingCompletions s - 1\<rparr>)
      else s)"
| "step (FireGraph k) s =
     (if k < length (graphTimers s) then
        (let s1 = s\<lparr>graphTimers := remove_nth k (graphTimers s)\<rparr> in
         case networkInstance s of
           None \<Rightarrow> s1
         | Some g \<Rightarrow> s1\<lparr>networkInstance := Some (run_stmts (snd (graphTimers s ! k)) g)\<rparr>)
      else s)"

definition exec :: "action list \<Rightarrow> page \<Rightarrow> page" where
  "exec acts s = fold step acts s"

text \<open>The session status of the specification, read off the flag and the button label.\<close>

datatype status = Idle | Running | Paused | Completed

definition session_status :: "page \<Rightarrow> status" where
  "session_status s =
     (if simulationRunning s then Running
      else if startLabel s = LblResume then Paused
      else if startLabel s = LblStartNew then Completed
      else Idle)"

text \<open>
  One run, as a schedule: a click on Start, the delayed start it has scheduled, and \<open>n\<close>
  ticks of the interval which that start creates.
\<close>

definition play :: "string \<Rightarrow> string \<Rightarrow> string list \<Rightarrow> nat \<Rightarrow> page \<Rightarrow> page" where
  "play scenario difficulty targets n s =
     exec ([ClickStart scenario difficulty targets, FireStart (length (pendingStarts s))]
           @ replicate n (Tick (length (intervals s)))) s"

text \<open>
  The relation between the event log and the defense table: both are renderings of one
  sequence of delivered script events, the table of its defense events.
\<close>

definition catalog_event :: "event \<Rightarrow> bool" where
  "catalog_event e =
     (e \<in> set (ransomware_events @ ddos_events @ data_exfiltration_events @ default_events))"

definition ledger_inv :: "page \<Rightarrow> bool" where
  "ledger_inv s =
     ((\<exists>es. list_all catalog_event es \<and> logItems s = map eventItem es
            \<and> tableRows s = map defenseRow (filter (\<lambda>e. etype e = ''defense'') es))
      \<and> (tablePlaceholder s \<longrightarrow> tableRows s = [])
      \<and> list_all (\<lambda>iv. list_all catalog_event (iv_events iv)) (intervals s))"

section \<open>Properties\<close>

lemma includes_str_sublist: "includes_str s needle = sublist needle s"
  by (induction s) (auto simp: sublist_Cons_right)

subsection \<open>Schedules\<close>

lemma exec_replicate: "exec (replicate n a) s = (step a ^^ n) s"
  by (simp add: exec_def fold_replicate)

lemma exec_ticks: "exec (replicate n (Tick k)) s = (tick k ^^ n) s"
proof -
  have "step (Tick k) = tick k" by (rule ext) simp
  then show ?thesis by (simp add: exec_replicate)
qed

lemma exec_append: "exec (xs @ ys) s = exec ys (exec xs s)"
  by (simp add: exec_def)

lemma exec_Cons: "exec (a # xs) s = exec xs (step a s)"
  by (simp add: exec_def)

lemma exec_Nil: "exec [] s = s"
  by (simp add: exec_def)

text \<open>
The equations that evaluate a schedule on a concrete page.
\<close>

lemmas page_simps = exec_def play_def startSimulation_def startCallback_def runSimulation_def
  updateNetworkForScenario_def startInterval_def new_interval_def initNetworkVisualization_def
  resetSimulationLogs_def remove_nth_def tick_def addSimulationEvent_def addDefenseAction_def
  pauseSimulation_def resetSimulation_def resetNetworkVisualization_def Let_def page0_def
  getScenarioEvents_def truthy_def

lemmas run_simps = page_simps eval_nat_numeral

subsection \<open>The interval callback\<close>

lemma tick_deliver:
  assumes "simulationRunning s" "k < length (intervals s)"
    "intervals s ! k = \<lparr>iv_events = evs, iv_i = j, iv_eventCount = c, iv_cleared = False\<rparr>"
    "j < length evs"
  shows "simulationRunning (tick k s)"
    and "intervals (tick k s) =
           (intervals s)[k := \<lparr>iv_events = evs, iv_i = Suc j, iv_eventCount = Suc c, iv_cleared = False\<rparr>]"
    and "logItems (tick k s) = logItems s @ [eventItem (evs ! j)]"
    and "pendingCompletions (tick k s) = pendingCompletions s"
    and "eventCounter (tick k s) = Suc c"
  using assms by (simp_all add: tick_def Let_def addSimulationEvent_def addDefenseAction_def)

lemma tick_finish:
  assumes "simulationRunning s" "k < length (intervals s)"
    "intervals s ! k = \<lparr>iv_events = evs, iv_i = j, iv_eventCount = c, iv_cleared = False\<rparr>"
    "length evs \<le> j"
  shows "tick k s =
     s\<lparr>intervals := (intervals s)[k := \<lparr>iv_events = evs, iv_i = j, iv_eventCount = c, iv_cleared = True\<rparr>],
       pendingCompletions := Suc (pendingCompletions s)\<rparr>"
  using assms by (simp add: tick_def Let_def)

lemma tick_cleared:
  assumes "k < length (intervals s)" "iv_cleared (intervals s ! k)"
  shows "(tick k ^^ m) s = s"
  using assms by (induction m) (simp_all add: tick_def)

lemma ticks_deliver:
  assumes "simulationRunning s" "k < length (intervals s)"
    "intervals s ! k = \<lparr>iv_events = evs, iv_i = j, iv_eventCount = c, iv_cleared = False\<rparr>"
    "j + n \<le> length evs"
  shows "simulationRunning ((tick k ^^ n) s)
       \<and> intervals ((tick k ^^ n) s) =
           (intervals s)[k := \<lparr>iv_events = evs, iv_i = j + n, iv_eventCount = c + n, iv_cleared = False\<rparr>]
       \<and> logItems ((tick k ^^ n) s) = logItems s @ map eventItem (take n (drop j evs))
       \<and> pendingCompletions ((tick k ^^ n) s) = pendingCompletions s"
  using assms
proof (induction n arbitrary: s j c)
  case 0
  then show ?case using list_update_id [of "intervals s" k] by simp
next
  case (Suc n)
  have j: "j < length evs" using Suc.prems(4) by simp
  note st = tick_deliver [OF Suc.prems(1-3) j]
  have k': "k < length (intervals (tick k s))" using st(2) Suc.prems(2) by simp
  have iv': "intervals (tick k s) ! k =
      \<lparr>iv_events = evs, iv_i = Suc j, iv_eventCount = Suc c, iv_cleared = False\<rparr>"
    using st(2) Suc.prems(2) by simp
  have le: "Suc j + n \<le> length evs" using Suc.prems(4) by simp
  note ih = Suc.IH [OF st(1) k' iv' le]
  have tk: "take (Suc n) (drop j evs) = evs ! j # take n (drop (Suc j) evs)"
    using j by (simp add: Cons_nth_drop_Suc [symmetric])
  show ?case
    using ih st by (simp add: funpow_swap1 tk)
qed

lemma ticks_complete:
  assumes "simulationRunning s" "k < length (intervals s)"
    "intervals s ! k = new_interval evs" "length evs < n"
  shows "simulationRunning ((tick k ^^ n) s)
       \<and> intervals ((tick k ^^ n) s) =
           (intervals s)[k := \<lparr>iv_events = evs, iv_i = length evs, iv_eventCount = length evs,
                                  iv_cleared = True\<rparr>]
       \<and> logItems ((tick k ^^ n) s) = logItems s @ map eventItem evs
       \<and> pendingCompletions ((tick k ^^ n) s) = Suc (pendingCompletions s)"
proof -
  let ?u = "(tick k ^^ length evs) s"
  have iv: "intervals s ! k = \<lparr>iv_events = evs, iv_i = 0, iv_eventCount = 0, iv_cleared = False\<rparr>"
    using assms(3) by (simp add: new_interval_def)
  have d: "simulationRunning ?u"
    "intervals ?u = (intervals s)[k := \<lparr>iv_events = evs, iv_i = length evs,
        iv_eventCount = length evs, iv_cleared = False\<rparr>]"
    "logItems ?u = logItems s @ map eventItem evs"
    "pendingCompletions ?u = pendingCompletions s"
    using ticks_deliver [OF assms(1,2) iv, of "length evs"] by simp_all
  have ku: "k < length (intervals ?u)" using d(2) assms(2) by simp
  have ivu: "intervals ?u ! k = \<lparr>iv_events = evs, iv_i = length evs,
        iv_eventCount = length evs, iv_cleared = False\<rparr>"
    using d(2) assms(2) by simp
  let ?v = "tick k ?u"
  have v: "?v = ?u\<lparr>intervals := (intervals ?u)[k := \<lparr>iv_events = evs, iv_i = length evs,
        iv_eventCount = length evs, iv_cleared = True\<rparr>],
       pendingCompletions := Suc (pendingCompletions ?u)\<rparr>"
    using tick_finish [OF d(1) ku ivu] by simp
  have kv: "k < length (intervals ?v)" using v ku by simp
  have cv: "iv_cleared (intervals ?v ! k)" using v ku by simp
  obtain m where "n = m + Suc (length evs)"
    using assms(4) less_iff_Suc_add by (metis add.commute add_Suc_right)
  then have "(tick k ^^ n) s = (tick k ^^ (m + Suc (length evs))) s"
    by (rule arg_cong)
  also have "\<dots> = (tick k ^^ m) ?v"
    unfolding funpow_add by simp
  also have "\<dots> = ?v" using tick_cleared [OF kv cv] .
  finally have e: "(tick k ^^ n) s = ?v" .
  show ?thesis
    unfolding e using v d by simp
qed

subsection \<open>One run from an idle page\<close>

lemma begin_run:
  assumes "\<not> simulationRunning s" "\<not> startDisabled s" "targets \<noteq> []"
  shows "simulationRunning (exec [ClickStart scenario difficulty targets, FireStart (length (pendingStarts s))] s)"
    and "intervals (exec [ClickStart scenario difficulty targets, FireStart (length (pendingStarts s))] s)
           = intervals s @ [new_interval (getScenarioEvents scenario)]"
    and "logItems (exec [ClickStart scenario difficulty targets, FireStart (length (pendingStarts s))] s) = []"
    and "pendingCompletions (exec [ClickStart scenario difficulty targets, FireStart (length (pendingStarts s))] s)
           = pendingCompletions s"
  using assms
  by (simp_all add: exec_def startSimulation_def startCallback_def runSimulation_def
      updateNetworkForScenario_def startInterval_def initNetworkVisualization_def
      resetSimulationLogs_def remove_nth_def Let_def split: option.splits)

lemma play_deliver:
  assumes "\<not> simulationRunning s" "\<not> startDisabled s" "targets \<noteq> []"
  shows "simulationRunning (play scenario difficulty targets n s)
       \<and> logItems (play scenario difficulty targets n s)
           = map eventItem (take n (getScenarioEvents scenario))"
proof -
  let ?k = "length (intervals s)"
  let ?evs = "getScenarioEvents scenario"
  let ?u = "exec [ClickStart scenario difficulty targets, FireStart (length (pendingStarts s))] s"
  note b = begin_run [OF assms, of scenario difficulty]
  have k: "?k < length (intervals ?u)" using b(2) by simp
  have iv: "intervals ?u ! ?k = new_interval ?evs" using b(2) by simp
  have ex: "play scenario difficulty targets n s = (tick ?k ^^ n) ?u"
    unfolding play_def exec_append exec_ticks ..
  show ?thesis
  proof (cases "n \<le> length ?evs")
    case True
    have iv0: "intervals ?u ! ?k = \<lparr>iv_events = ?evs, iv_i = 0, iv_eventCount = 0, iv_cleared = False\<rparr>"
      using iv by (simp add: new_interval_def)
    from True have le: "0 + n \<le> length ?evs" by simp
    show ?thesis
      unfolding ex using ticks_deliver [OF b(1) k iv0 le] b(3) by simp
  next
    case False
    then have gt: "length ?evs < n" by simp
    show ?thesis
      unfolding ex using ticks_complete [OF b(1) k iv gt] b(3) gt by simp
  qed
qed

lemma play_complete:
  assumes "\<not> simulationRunning s" "\<not> startDisabled s" "targets \<noteq> []"
    "length (getScenarioEvents scenario) < n"
  shows "simulationRunning (play scenario difficulty targets n s)"
    and "intervals (play scenario difficulty targets n s) ! length (intervals s) =
           \<lparr>iv_events = getScenarioEvents scenario, iv_i = length (getScenarioEvents scenario),
             iv_eventCount = length (getScenarioEvents scenario), iv_cleared = True\<rparr>"
    and "length (intervals s) < length (intervals (play scenario difficulty targets n s))"
    and "logItems (play scenario difficulty targets n s) = map eventItem (getScenarioEvents scenario)"
    and "pendingCompletions (play scenario difficulty targets n s) = Suc (pendingCompletions s)"
proof -
  let ?k = "length (intervals s)"
  let ?evs = "getScenarioEvents scenario"
  let ?u = "exec [ClickStart scenario difficulty targets, FireStart (length (pendingStarts s))] s"
  note b = begin_run [OF assms(1-3), of scenario difficulty]
  have k: "?k < length (intervals ?u)" using b(2) by simp
  have iv: "intervals ?u ! ?k = new_interval ?evs" using b(2) by simp
  have ex: "play scenario difficulty targets n s = (tick ?k ^^ n) ?u"
    unfolding play_def exec_append exec_ticks ..
  note c = ticks_complete [OF b(1) k iv assms(4)]
  show "simulationRunning (play scenario difficulty targets n s)"
    unfolding ex using c by simp
  show "intervals (play scenario difficulty targets n s) ! ?k =
           \<lparr>iv_events = ?evs, iv_i = length ?evs, iv_eventCount = length ?evs, iv_cleared = True\<rparr>"
    unfolding ex using c k by simp
  show "?k < length (intervals (play scenario difficulty targets n s))"
    unfolding ex using c k by simp
  show "logItems (play scenario difficulty targets n s) = map eventItem ?evs"
    unfolding ex using c b(3) by simp
  show "pendingCompletions (play scenario difficulty targets n s) = Suc (pendingCompletions s)"
    unfolding ex using c b(4) by simp
qed

lemma completed_after_fire:
  assumes "pendingCompletions a = Suc p"
  shows "session_status (step (FireCompleted name r1 r2) a) = Completed
       \<and> resultsModal (step (FireCompleted name r1 r2) a) \<noteq> None
       \<and> pendingCompletions (step (FireCompleted name r1 r2) a) = p
       \<and> intervals (step (FireCompleted name r1 r2) a) = intervals a"
  using assms by (simp add: simulationCompleted_def showSimulationResults_def session_status_def)

subsection \<open>The ransomware scenario\<close>

text \<open>
  C1, as stated, fails on the script: the ransomware run delivers 16 events, but 8 of them
  (not 7) have category defense; 7 are attacks and 1 is a network event. The two delivered
  messages about lateral movement spell it \<open>Lateral movement\<close>, which the case-sensitive
  test for \<open>lateral movement\<close> does not match, so their inferred vector is \<open>Unknown\<close>.
\<close>

theorem ransomware_counts_counterexample:
  "length (logItems (play ''ransomware'' ''medium'' [''endpoints''] 17 page0)) = 16
   \<and> count_list (map li_class (logItems (play ''ransomware'' ''medium'' [''endpoints''] 17 page0)))
        ''event-type-defense'' = 8
   \<and> count_list (map li_class (logItems (play ''ransomware'' ''medium'' [''endpoints''] 17 page0)))
        ''event-type-defense'' \<noteq> 7
   \<and> map r_vector (tableRows (play ''ransomware'' ''medium'' [''endpoints''] 17 page0))
       = [''Unknown'', ''Unknown'', ''Unknown'', ''Unknown'', ''Unauthorized Access'', ''Encryption'',
          ''Unknown'', ''Unknown'']
   \<and> determineAttackVector ''Lateral movement attempt detected from Workstation 2 to Admin machine''
       = ''Unknown''
   \<and> determineAttackVector ''Lateral movement partially blocked'' = ''Unknown''"
proof -
  have 1: "logItems (play ''ransomware'' ''medium'' [''endpoints''] 17 page0)
           = map eventItem ransomware_events"
    using play_complete(4) [of page0 "[''endpoints'']" "''ransomware''" 17 "''medium''"]
    by (simp add: page0_def getScenarioEvents_def ransomware_events_def)
  have 2: "length (map eventItem ransomware_events) = 16"
    by (simp add: ransomware_events_def)
  have 3: "count_list (map li_class (map eventItem ransomware_events)) ''event-type-defense'' = 8"
    by (simp add: ransomware_events_def ev_def evd_def eventItem_def typeClass_def)
  have 4: "map r_vector (tableRows (play ''ransomware'' ''medium'' [''endpoints''] 17 page0))
       = [''Unknown'', ''Unknown'', ''Unknown'', ''Unknown'', ''Unauthorized Access'', ''Encryption'',
          ''Unknown'', ''Unknown'']"
    by (simp add: run_simps ransomware_events_def ev_def evd_def defenseRow_def
        determineAttackVector_def)
  have 5: "determineAttackVector ''Lateral movement attempt detected from Workstation 2 to Admin machine''
       = ''Unknown''"
    by (simp add: determineAttackVector_def)
  have 6: "determineAttackVector ''Lateral movement partially blocked'' = ''Unknown''"
    by (simp add: determineAttackVector_def)
  show ?thesis unfolding 1 using 2 3 4 5 6 by simp
qed

text \<open>
  C1, amended. From an idle page, the ransomware run ticked to completion delivers exactly
  16 events, exactly 8 of which have category defense; and the inference function gives
  \<open>Lateral Movement\<close> for every message that contains \<open>lateral movement\<close> in exactly
  this spelling and none of the four keywords tested before it.
\<close>

theorem ransomware_run_amended:
  assumes "\<not> simulationRunning s" "\<not> startDisabled s" "targets \<noteq> []"
    "includes_str msg ''lateral movement''" "\<not> includes_str msg ''phishing''"
    "\<not> includes_str msg ''malicious attachment''" "\<not> includes_str msg ''command and control''"
    "\<not> includes_str msg ''escalate privileges''"
  shows "length (logItems (play ''ransomware'' difficulty targets 17 s)) = 16
       \<and> count_list (map li_class (logItems (play ''ransomware'' difficulty targets 17 s)))
            ''event-type-defense'' = 8
       \<and> determineAttackVector msg = ''Lateral Movement''"
proof -
  have gt: "length (getScenarioEvents ''ransomware'') < 17"
    by (simp add: getScenarioEvents_def ransomware_events_def)
  have 1: "logItems (play ''ransomware'' difficulty targets 17 s) = map eventItem ransomware_events"
    using play_complete(4) [OF assms(1-3) gt, of difficulty] by (simp add: getScenarioEvents_def)
  have 2: "length (map eventItem ransomware_events) = 16"
    by (simp add: ransomware_events_def)
  have 3: "count_list (map li_class (map eventItem ransomware_events)) ''event-type-defense'' = 8"
    by (simp add: ransomware_events_def ev_def evd_def eventItem_def typeClass_def)
  have 4: "determineAttackVector msg = ''Lateral Movement''"
    using assms(4-8) by (simp add: determineAttackVector_def)
  show ?thesis unfolding 1 using 2 3 4 by simp
qed

theorem ransomware_run_amended_witness:
  "\<not> simulationRunning page0 \<and> \<not> startDisabled page0 \<and> [''endpoints''] \<noteq> []
   \<and> includes_str ''Possible lateral movement seen'' ''lateral movement''
   \<and> \<not> includes_str ''Possible lateral movement seen'' ''phishing''
   \<and> \<not> includes_str ''Possible lateral movement seen'' ''malicious attachment''
   \<and> \<not> includes_str ''Possible lateral movement seen'' ''command and control''
   \<and> \<not> includes_str ''Possible lateral movement seen'' ''escalate privileges''
   \<and> length (logItems (play ''ransomware'' ''medium'' [''endpoints''] 17 page0)) = 16
   \<and> count_list (map li_class (logItems (play ''ransomware'' ''medium'' [''endpoints''] 17 page0)))
            ''event-type-defense'' = 8
   \<and> determineAttackVector ''Possible lateral movement seen'' = ''Lateral Movement''"
proof -
  have h: "\<not> simulationRunning page0" "\<not> startDisabled page0" "[''endpoints''] \<noteq> []"
    by (simp_all add: page0_def)
  have m: "includes_str ''Possible lateral movement seen'' ''lateral movement''"
    "\<not> includes_str ''Possible lateral movement seen'' ''phishing''"
    "\<not> includes_str ''Possible lateral movement seen'' ''malicious attachment''"
    "\<not> includes_str ''Possible lateral movement seen'' ''command and control''"
    "\<not> includes_str ''Possible lateral movement seen'' ''escalate privileges''"
    by simp_all
  show ?thesis
    using h m ransomware_run_amended [OF h m, of "''medium''"] by blast
qed

subsection \<open>Reset of the topology graph\<close>

text \<open>
  Every graph that can arise has the nodes and edges of the initial graph, with their ids,
  labels, shapes, icons and end points: the callbacks and the reset write visual properties
  only.
\<close>

lemma update_node_skeleton:
  assumes "i \<in> nid ` set ns"
  shows "map node_skeleton (update_node i c ns) = map node_skeleton ns"
  using assms by (simp add: update_node_def node_skeleton_def)

lemma node_ids_skeleton: "nid ` set ns = fst ` set (map node_skeleton ns)"
  by (force simp: node_skeleton_def)

lemma fold_update_node_skeleton:
  assumes "fst ` set ups \<subseteq> nid ` set ns"
  shows "map node_skeleton (fold (\<lambda>(i, c). update_node i c) ups ns) = map node_skeleton ns"
  using assms
proof (induction ups arbitrary: ns)
  case Nil
  then show ?case by simp
next
  case (Cons u ups)
  obtain i c where u: "u = (i, c)" by (cases u)
  have i: "i \<in> nid ` set ns" using Cons.prems u by simp
  have sk: "map node_skeleton (update_node i c ns) = map node_skeleton ns"
    using i by (rule update_node_skeleton)
  have "nid ` set (update_node i c ns) = nid ` set ns"
    unfolding node_ids_skeleton sk ..
  then have "fst ` set ups \<subseteq> nid ` set (update_node i c ns)" using Cons.prems by simp
  from Cons.IH [OF this] show ?case using sk u by simp
qed

lemma update_edge_skeleton: "map edge_skeleton (update_edge i p es) = map edge_skeleton es"
  by (simp add: update_edge_def edge_skeleton_def patch_edge_def)

lemma fold_update_edge_skeleton:
  "map edge_skeleton (fold (\<lambda>(k, p). update_edge (f k) p) ups es) = map edge_skeleton es"
proof (induction ups arbitrary: es)
  case Nil
  then show ?case by simp
next
  case (Cons u ups)
  obtain k p where u: "u = (k, p)" by (cases u)
  show ?case using Cons.IH [of "update_edge (f k) p es"] u
    by (simp add: update_edge_skeleton)
qed

lemma initial_node_ids: "nid ` set (nodes initial_graph) = {1, 2, 3, 4, 5, 6, 7, 8}"
  by (auto simp: initial_graph_def mk_node_def)

lemma run_stmt_skeleton:
  assumes "graph_skeleton g = graph_skeleton initial_graph" "stmt_ok st" "run_stmt st g = Some g'"
  shows "graph_skeleton g' = graph_skeleton initial_graph"
proof (cases st)
  case (NodesUpdate ups)
  have "nid ` set (nodes g) = nid ` set (nodes initial_graph)"
    unfolding node_ids_skeleton using assms(1) by (simp add: graph_skeleton_def)
  then have ids: "nid ` set (nodes g) = {1, 2, 3, 4, 5, 6, 7, 8}" using initial_node_ids by simp
  have "fst ` set ups \<subseteq> nid ` set (nodes g)"
    unfolding ids using assms(2) NodesUpdate by (auto simp: list_all_iff)
  from fold_update_node_skeleton [OF this] show ?thesis
    using assms(1,3) NodesUpdate by (auto simp: graph_skeleton_def)
next
  case (EdgesUpdate ups)
  then show ?thesis using assms(1,3)
    fold_update_edge_skeleton [of "\<lambda>k. eid (edges g ! k)" ups "edges g"]
    by (auto simp: graph_skeleton_def split: if_splits)
qed

lemma run_stmts_skeleton:
  assumes "list_all stmt_ok cb" "graph_skeleton g = graph_skeleton initial_graph"
  shows "graph_skeleton (run_stmts cb g) = graph_skeleton initial_graph"
  using assms
proof (induction cb arbitrary: g)
  case Nil
  then show ?case by simp
next
  case (Cons st cb)
  show ?case
  proof (cases "run_stmt st g")
    case None
    then show ?thesis using Cons.prems by simp
  next
    case (Some g')
    have "graph_skeleton g' = graph_skeleton initial_graph"
      using run_stmt_skeleton [OF Cons.prems(2) _ Some] Cons.prems(1) by simp
    then show ?thesis using Cons.IH [of g'] Cons.prems(1) Some by simp
  qed
qed

lemma scenario_timers_ok:
  assumes "(delay, cb) \<in> set (scenario_timers scenario)"
  shows "list_all stmt_ok cb"
proof -
  from assms consider "(delay, cb) \<in> set simulateRansomwareAttack"
    | "(delay, cb) \<in> set simulateDDoSAttack" | "(delay, cb) \<in> set simulateDataExfiltration"
    | "(delay, cb) \<in> set simulateGenericAttack"
    unfolding scenario_timers_def by (auto split: if_splits)
  then show ?thesis
  proof cases
    case 1 then show ?thesis unfolding simulateRansomwareAttack_def by auto
  next
    case 2 then show ?thesis unfolding simulateDDoSAttack_def by auto
  next
    case 3 then show ?thesis unfolding simulateDataExfiltration_def by auto
  next
    case 4 then show ?thesis unfolding simulateGenericAttack_def by auto
  qed
qed

lemma reset_graph_skeleton: "graph_skeleton (reset_graph g) = graph_skeleton g"
  by (simp add: graph_skeleton_def reset_graph_def reset_node_def reset_edge_def patch_edge_def
      node_skeleton_def edge_skeleton_def)

lemma reachable_skeleton:
  assumes "reachable_graph g"
  shows "graph_skeleton g = graph_skeleton initial_graph"
  using assms
proof (induction rule: reachable_graph.induct)
  case initial
  show ?case ..
next
  case (fired g delay cb scenario)
  then show ?case using run_stmts_skeleton [OF scenario_timers_ok] by blast
next
  case (reset g)
  then show ?case by (simp add: reset_graph_skeleton)
qed

text \<open>
  The graph held by the page after any sequence of clicks and timer firings is one of
  these.
\<close>

lemma page_graph_inv_step:
  assumes "\<And>g. networkInstance s = Some g \<Longrightarrow> reachable_graph g"
    and "\<And>t. t \<in> set (graphTimers s) \<Longrightarrow> \<exists>scenario. t \<in> set (scenario_timers scenario)"
  shows "(\<forall>g. networkInstance (step a s) = Some g \<longrightarrow> reachable_graph g)
       \<and> (\<forall>t \<in> set (graphTimers (step a s)). \<exists>scenario. t \<in> set (scenario_timers scenario))"
proof (cases a)
  case (ClickStart scenario difficulty targets)
  then show ?thesis using assms reachable_graph.initial
    by (auto simp: startSimulation_def pauseSimulation_def initNetworkVisualization_def
        resetSimulationLogs_def Let_def split: option.splits)
next
  case ClickReset
  then show ?thesis using assms reachable_graph.reset
    by (auto simp: resetSimulation_def resetNetworkVisualization_def resetSimulationLogs_def
        split: option.splits)
next
  case (FireStart k)
  then show ?thesis using assms
    by (auto simp: startCallback_def runSimulation_def updateNetworkForScenario_def
        startInterval_def split: option.splits prod.splits)
next
  case (Tick k)
  then show ?thesis using assms
    by (auto simp: tick_def Let_def addSimulationEvent_def addDefenseAction_def)
next
  case (FireCompleted name r1 r2)
  then show ?thesis using assms
    by (auto simp: simulationCompleted_def showSimulationResults_def)
next
  case (FireGraph k)
  show ?thesis
  proof (cases "k < length (graphTimers s)")
    case False
    then show ?thesis using FireGraph assms by auto
  next
    case True
    obtain delay cb where t: "graphTimers s ! k = (delay, cb)" by (cases "graphTimers s ! k")
    have "(delay, cb) \<in> set (graphTimers s)" using True t by (metis nth_mem)
    then obtain scenario where sc: "(delay, cb) \<in> set (scenario_timers scenario)"
      using assms(2) by blast
    have sub: "set (remove_nth k (graphTimers s)) \<subseteq> set (graphTimers s)"
      unfolding remove_nth_def using set_take_subset set_drop_subset by fastforce
    show ?thesis using FireGraph True t sub assms reachable_graph.fired [OF _ sc]
      by (auto simp: Let_def split: option.splits)
  qed
qed

lemma page_graph_inv_exec:
  assumes "\<And>g. networkInstance s = Some g \<Longrightarrow> reachable_graph g"
    and "\<And>t. t \<in> set (graphTimers s) \<Longrightarrow> \<exists>scenario. t \<in> set (scenario_timers scenario)"
  shows "(\<forall>g. networkInstance (exec acts s) = Some g \<longrightarrow> reachable_graph g)
       \<and> (\<forall>t \<in> set (graphTimers (exec acts s)). \<exists>scenario. t \<in> set (scenario_timers scenario))"
  using assms
proof (induction acts arbitrary: s)
  case Nil
  then show ?case by (simp add: exec_Nil)
next
  case (Cons a acts)
  have "(\<forall>g. networkInstance (step a s) = Some g \<longrightarrow> reachable_graph g)
       \<and> (\<forall>t \<in> set (graphTimers (step a s)). \<exists>scenario. t \<in> set (scenario_timers scenario))"
    using page_graph_inv_step [of s a] Cons.prems by blast
  then show ?case using Cons.IH [of "step a s"] by (simp add: exec_Cons)
qed

lemma page_graph_reachable:
  assumes "networkInstance (exec acts page0) = Some g"
  shows "reachable_graph g"
  using page_graph_inv_exec [of page0 acts] assms by (simp add: page0_def)

text \<open>
The equations that evaluate callbacks and the reset on a concrete graph.
\<close>

lemmas graph_simps = run_stmts.simps run_stmt.simps update_node_def update_edge_def patch_edge_def
  merge_prop_def reset_graph_def reset_node_def reset_edge_def scenario_timers_def
  initial_graph_def mk_node_def mk_edge_def color_patch_def plain_def
  compromisedStyle_def atRiskStyle_def firewallStyle_def nominal_color_def

text \<open>
  C2, as stated, fails. Start the DDoS scenario, let its first four graph callbacks fire
  (the fourth sets the width of the first edge to 6) and reset: the first edge still has
  width 6, which no statement of the reset touches, and the perimeter nodes 1 and 2, which
  the reset skips, keep the attack colours the scenario gave them. The graph is not the
  initial one. Even the initial graph is not a fixed point of the reset as data: the reset
  writes a colour on the Admin icon node, and an explicit colour and \<open>dashes: false\<close> on
  every edge, where the initial items have no such property.
\<close>

theorem reset_not_initial_counterexample:
  "map_option (map width \<circ> edges)
      (networkInstance (exec [ClickStart ''ddos'' ''medium'' [''network''], FireStart 0,
         FireGraph 0, FireGraph 0, FireGraph 0, FireGraph 0, ClickReset] page0))
     = Some [Some 6, None, None, None, None, None, None, None]
   \<and> map width (edges initial_graph) = [None, None, None, None, None, None, None, None]
   \<and> map_option (map ncolor \<circ> nodes)
      (networkInstance (exec [ClickStart ''ddos'' ''medium'' [''network''], FireStart 0,
         FireGraph 0, FireGraph 0, FireGraph 0, FireGraph 0, ClickReset] page0))
     = Some [Some (''#dc3545'', ''#b02a37''), Some (''#fd7e14'', ''#ca6510''),
             Some (''#198754'', ''#146c43''), Some (''#198754'', ''#146c43''),
             Some (''#198754'', ''#146c43''), Some (''#ffffff'', ''#0dcaf0''),
             Some (''#198754'', ''#146c43''), Some (''#198754'', ''#146c43'')]
   \<and> map ncolor (nodes initial_graph)
     = [Some (''#6c757d'', ''#495057''), Some (''#0d6efd'', ''#0a58ca''),
        Some (''#198754'', ''#146c43''), Some (''#198754'', ''#146c43''),
        Some (''#198754'', ''#146c43''), None,
        Some (''#198754'', ''#146c43''), Some (''#198754'', ''#146c43'')]
   \<and> networkInstance (exec [ClickStart ''ddos'' ''medium'' [''network''], FireStart 0,
         FireGraph 0, FireGraph 0, FireGraph 0, FireGraph 0, ClickReset] page0) \<noteq> Some initial_graph
   \<and> reset_graph initial_graph \<noteq> initial_graph"
proof -
  let ?s = "exec [ClickStart ''ddos'' ''medium'' [''network''], FireStart 0,
         FireGraph 0, FireGraph 0, FireGraph 0, FireGraph 0, ClickReset] page0"
  have 1: "map_option (map width \<circ> edges) (networkInstance ?s)
     = Some [Some 6, None, None, None, None, None, None, None]"
    by (simp add: page_simps graph_simps simulateDDoSAttack_def)
  have 2: "map width (edges initial_graph) = [None, None, None, None, None, None, None, None]"
    by (simp add: graph_simps)
  have 3: "map_option (map ncolor \<circ> nodes) (networkInstance ?s)
     = Some [Some (''#dc3545'', ''#b02a37''), Some (''#fd7e14'', ''#ca6510''),
             Some (''#198754'', ''#146c43''), Some (''#198754'', ''#146c43''),
             Some (''#198754'', ''#146c43''), Some (''#ffffff'', ''#0dcaf0''),
             Some (''#198754'', ''#146c43''), Some (''#198754'', ''#146c43'')]"
    by (simp add: page_simps graph_simps simulateDDoSAttack_def)
  have 4: "map ncolor (nodes initial_graph)
     = [Some (''#6c757d'', ''#495057''), Some (''#0d6efd'', ''#0a58ca''),
        Some (''#198754'', ''#146c43''), Some (''#198754'', ''#146c43''),
        Some (''#198754'', ''#146c43''), None,
        Some (''#198754'', ''#146c43''), Some (''#198754'', ''#146c43'')]"
    by (simp add: graph_simps)
  have 5: "networkInstance ?s \<noteq> Some initial_graph"
  proof
    assume "networkInstance ?s = Some initial_graph"
    then have "map_option (map width \<circ> edges) (networkInstance ?s) = Some (map width (edges initial_graph))"
      by simp
    then show False unfolding 1 2 by simp
  qed
  have 6: "reset_graph initial_graph \<noteq> initial_graph"
  proof
    assume "reset_graph initial_graph = initial_graph"
    then have "map ncolor (nodes (reset_graph initial_graph)) = map ncolor (nodes initial_graph)"
      by simp
    then show False by (simp add: graph_simps)
  qed
  show ?thesis using 1 2 3 4 5 6 by blast
qed

lemma reset_node_nominal:
  assumes "node_skeleton n = (i, l, Some sh, ic)" "i \<noteq> 1" "i \<noteq> 2"
    "sh = ''server'' \<or> sh = ''desktop'' \<or> sh = ''database''"
  shows "reset_node n = \<lparr>nid = i, label = l, shape = Some sh, ncolor = Some nominal_color, icon = ic\<rparr>"
  using assms by (cases n) (auto simp: node_skeleton_def reset_node_def)

lemma reset_node_icon:
  assumes "node_skeleton n = (i, l, Some ''icon'', ic)" "i \<noteq> 1" "i \<noteq> 2"
  shows "reset_node n = \<lparr>nid = i, label = l, shape = Some ''icon'',
                          ncolor = Some (''#ffffff'', ''#0dcaf0''), icon = ic\<rparr>"
  using assms by (cases n) (auto simp: node_skeleton_def reset_node_def)

lemma reset_node_perimeter:
  assumes "node_skeleton n = (i, l, sh, ic)" "i = 1 \<or> i = 2"
  shows "reset_node n = n"
  using assms by (auto simp: node_skeleton_def reset_node_def)

lemma reset_edge_fields:
  "ecolor (reset_edge e) = Some (plain ''#495057'') \<and> dashes (reset_edge e) = Some NoDashes"
  by (simp add: reset_edge_def patch_edge_def merge_prop_def)

text \<open>
  C2, amended. After a reset of any graph that can arise, the nodes 3, 4, 5, 7 and 8
  (servers, database, workstations) are exactly their initial items; the Admin node 6 is
  its initial item with the colour pair \<open>#ffffff\<close>/\<open>#0dcaf0\<close>; the perimeter nodes 1 and 2
  are as they were before the reset; every edge has its initial id and end points, the
  colour \<open>#495057\<close> (the default edge colour of the network options) and \<open>dashes\<close> false.
\<close>

theorem reset_restores_nominal:
  assumes "reachable_graph g"
  shows "take 2 (nodes (reset_graph g)) = take 2 (nodes g)
       \<and> drop 2 (nodes (reset_graph g)) =
           [mk_node 3 ''Web Server'' ''server'' nominal_color,
            mk_node 4 ''App Server'' ''server'' nominal_color,
            mk_node 5 ''Database'' ''database'' nominal_color,
            \<lparr>nid = 6, label = Some ''Admin'', shape = Some ''icon'',
              ncolor = Some (''#ffffff'', ''#0dcaf0''),
              icon = Some (''FontAwesome'', 0xf007, ''#0dcaf0'')\<rparr>,
            mk_node 7 ''Workstation 1'' ''desktop'' nominal_color,
            mk_node 8 ''Workstation 2'' ''desktop'' nominal_color]
       \<and> map edge_skeleton (edges (reset_graph g)) = map edge_skeleton (edges initial_graph)
       \<and> map ecolor (edges (reset_graph g)) = replicate 8 (Some (plain ''#495057''))
       \<and> map dashes (edges (reset_graph g)) = replicate 8 (Some NoDashes)"
proof -
  note sk = reachable_skeleton [OF assms]
  have nsk: "map node_skeleton (nodes g) = map node_skeleton (nodes initial_graph)"
    and esk: "map edge_skeleton (edges g) = map edge_skeleton (edges initial_graph)"
    using sk by (simp_all add: graph_skeleton_def)
  from nsk obtain n1 n2 n3 n4 n5 n6 n7 n8 where ns: "nodes g = [n1, n2, n3, n4, n5, n6, n7, n8]"
    and s1: "node_skeleton n1 = (1, Some ''Internet'', Some ''cloud'', None)"
    and s2: "node_skeleton n2 = (2, Some ''Firewall'', Some ''box'', None)"
    and s3: "node_skeleton n3 = (3, Some ''Web Server'', Some ''server'', None)"
    and s4: "node_skeleton n4 = (4, Some ''App Server'', Some ''server'', None)"
    and s5: "node_skeleton n5 = (5, Some ''Database'', Some ''database'', None)"
    and s6: "node_skeleton n6 = (6, Some ''Admin'', Some ''icon'', Some (''FontAwesome'', 0xf007, ''#0dcaf0''))"
    and s7: "node_skeleton n7 = (7, Some ''Workstation 1'', Some ''desktop'', None)"
    and s8: "node_skeleton n8 = (8, Some ''Workstation 2'', Some ''desktop'', None)"
    unfolding initial_graph_def mk_node_def
    by (auto simp: map_eq_Cons_conv node_skeleton_def)
  have r1: "reset_node n1 = n1" using reset_node_perimeter [OF s1] by simp
  have r2: "reset_node n2 = n2" using reset_node_perimeter [OF s2] by simp
  have r3: "reset_node n3 = mk_node 3 ''Web Server'' ''server'' nominal_color"
    using reset_node_nominal [OF s3] by (simp add: mk_node_def)
  have r4: "reset_node n4 = mk_node 4 ''App Server'' ''server'' nominal_color"
    using reset_node_nominal [OF s4] by (simp add: mk_node_def)
  have r5: "reset_node n5 = mk_node 5 ''Database'' ''database'' nominal_color"
    using reset_node_nominal [OF s5] by (simp add: mk_node_def)
  have r6: "reset_node n6 = \<lparr>nid = 6, label = Some ''Admin'', shape = Some ''icon'',
              ncolor = Some (''#ffffff'', ''#0dcaf0''),
              icon = Some (''FontAwesome'', 0xf007, ''#0dcaf0'')\<rparr>"
    using reset_node_icon [OF s6] by simp
  have r7: "reset_node n7 = mk_node 7 ''Workstation 1'' ''desktop'' nominal_color"
    using reset_node_nominal [OF s7] by (simp add: mk_node_def)
  have r8: "reset_node n8 = mk_node 8 ''Workstation 2'' ''desktop'' nominal_color"
    using reset_node_nominal [OF s8] by (simp add: mk_node_def)
  have two: "(2::nat) = Suc (Suc 0)" by simp
  have N: "nodes (reset_graph g) = [n1, n2, reset_node n3, reset_node n4, reset_node n5,
             reset_node n6, reset_node n7, reset_node n8]"
    using ns r1 r2 by (simp add: reset_graph_def)
  have A: "take 2 (nodes (reset_graph g)) = take 2 (nodes g)"
    unfolding N ns two by simp
  have B: "drop 2 (nodes (reset_graph g)) =
           [mk_node 3 ''Web Server'' ''server'' nominal_color,
            mk_node 4 ''App Server'' ''server'' nominal_color,
            mk_node 5 ''Database'' ''database'' nominal_color,
            \<lparr>nid = 6, label = Some ''Admin'', shape = Some ''icon'',
              ncolor = Some (''#ffffff'', ''#0dcaf0''),
              icon = Some (''FontAwesome'', 0xf007, ''#0dcaf0'')\<rparr>,
            mk_node 7 ''Workstation 1'' ''desktop'' nominal_color,
            mk_node 8 ''Workstation 2'' ''desktop'' nominal_color]"
    unfolding N two r3 r4 r5 r6 r7 r8 by simp
  have C: "map edge_skeleton (edges (reset_graph g)) = map edge_skeleton (edges initial_graph)"
    using reset_graph_skeleton [of g] esk by (simp add: graph_skeleton_def)
  have len: "length (edges g) = 8"
    using arg_cong [OF esk, of length] by (simp add: initial_graph_def)
  have D: "map ecolor (edges (reset_graph g)) = replicate 8 (Some (plain ''#495057''))"
    using len by (intro nth_equalityI) (simp_all add: reset_graph_def reset_edge_fields)
  have E: "map dashes (edges (reset_graph g)) = replicate 8 (Some NoDashes)"
    using len by (intro nth_equalityI) (simp_all add: reset_graph_def reset_edge_fields)
  show ?thesis using A B C D E by blast
qed

theorem reset_restores_nominal_witness:
  "reachable_graph (run_stmts [NodesUpdate [(1, compromisedStyle)],
                               EdgesUpdate [(0, color_patch (plain ''#dc3545''))]] initial_graph)
   \<and> drop 2 (nodes (reset_graph (run_stmts [NodesUpdate [(1, compromisedStyle)],
                               EdgesUpdate [(0, color_patch (plain ''#dc3545''))]] initial_graph))) =
           [mk_node 3 ''Web Server'' ''server'' nominal_color,
            mk_node 4 ''App Server'' ''server'' nominal_color,
            mk_node 5 ''Database'' ''database'' nominal_color,
            \<lparr>nid = 6, label = Some ''Admin'', shape = Some ''icon'',
              ncolor = Some (''#ffffff'', ''#0dcaf0''),
              icon = Some (''FontAwesome'', 0xf007, ''#0dcaf0'')\<rparr>,
            mk_node 7 ''Workstation 1'' ''desktop'' nominal_color,
            mk_node 8 ''Workstation 2'' ''desktop'' nominal_color]
   \<and> map ecolor (edges (reset_graph (run_stmts [NodesUpdate [(1, compromisedStyle)],
                               EdgesUpdate [(0, color_patch (plain ''#dc3545''))]] initial_graph)))
       = replicate 8 (Some (plain ''#495057''))"
proof -
  have m: "(2000, [NodesUpdate [(1, compromisedStyle)],
                   EdgesUpdate [(0, color_patch (plain ''#dc3545''))]]) \<in> set (scenario_timers ''ddos'')"
    by (simp add: scenario_timers_def simulateDDoSAttack_def)
  have r: "reachable_graph (run_stmts [NodesUpdate [(1, compromisedStyle)],
                               EdgesUpdate [(0, color_patch (plain ''#dc3545''))]] initial_graph)"
    using reachable_graph.fired [OF reachable_graph.initial m] .
  show ?thesis using r reset_restores_nominal [OF r] by blast
qed

subsection \<open>Scenario keys outside the switch\<close>

text \<open>
  C3, as stated, fails: \<open>startSimulation\<close> never checks the scenario key, and
  \<open>getScenarioEvents\<close> has a default branch. With the key \<open>custom\<close> (an option of the
  template, outside the catalog) and one target, the start shows no validation toast,
  schedules the run, and the run delivers the four events of the default script.
\<close>

theorem unknown_scenario_counterexample:
  "fst (startSimulation ''custom'' ''medium'' [''endpoints''] page0) = []
   \<and> pendingStarts (snd (startSimulation ''custom'' ''medium'' [''endpoints''] page0))
       = [(''custom'', ''medium'', [''endpoints''])]
   \<and> session_status (play ''custom'' ''medium'' [''endpoints''] 0 page0) = Running
   \<and> logItems (play ''custom'' ''medium'' [''endpoints''] 4 page0) = map eventItem default_events"
  by (simp add: run_simps session_status_def default_events_def ev_def evd_def)

text \<open>
  C3, amended. For every scenario key other than \<open>ransomware\<close>, \<open>ddos\<close> and
  \<open>data_exfiltration\<close>, a start from an idle page with a non-empty target selection shows
  no validation error and schedules the run; the run is running and delivers, tick by tick,
  the four-event default script.
\<close>

theorem unknown_scenario_plays_default:
  assumes "scenario \<noteq> ''ransomware''" "scenario \<noteq> ''ddos''" "scenario \<noteq> ''data_exfiltration''"
    "targets \<noteq> []" "\<not> simulationRunning s" "\<not> startDisabled s"
  shows "fst (startSimulation scenario difficulty targets s) = []
       \<and> pendingStarts (snd (startSimulation scenario difficulty targets s))
           = pendingStarts s @ [(scenario, difficulty, targets)]
       \<and> session_status (play scenario difficulty targets n s) = Running
       \<and> logItems (play scenario difficulty targets n s) = map eventItem (take n default_events)"
proof -
  have ev: "getScenarioEvents scenario = default_events"
    using assms(1-3) by (simp add: getScenarioEvents_def)
  have 1: "fst (startSimulation scenario difficulty targets s) = []"
    "pendingStarts (snd (startSimulation scenario difficulty targets s))
           = pendingStarts s @ [(scenario, difficulty, targets)]"
    using assms(4,5)
    by (simp_all add: startSimulation_def initNetworkVisualization_def resetSimulationLogs_def
        Let_def split: option.splits)
  note d = play_deliver [OF assms(5,6,4), of scenario difficulty n]
  show ?thesis using 1 d by (simp add: ev session_status_def)
qed

theorem unknown_scenario_plays_default_witness:
  "''phishing'' \<noteq> ''ransomware'' \<and> ''phishing'' \<noteq> ''ddos'' \<and> ''phishing'' \<noteq> ''data_exfiltration''
   \<and> [''endpoints''] \<noteq> [] \<and> \<not> simulationRunning page0 \<and> \<not> startDisabled page0
   \<and> fst (startSimulation ''phishing'' ''easy'' [''endpoints''] page0) = []
   \<and> session_status (play ''phishing'' ''easy'' [''endpoints''] 2 page0) = Running
   \<and> logItems (play ''phishing'' ''easy'' [''endpoints''] 2 page0) = map eventItem (take 2 default_events)"
proof -
  have h: "''phishing'' \<noteq> ''ransomware''" "''phishing'' \<noteq> ''ddos''"
    "''phishing'' \<noteq> ''data_exfiltration''" "[''endpoints''] \<noteq> []"
    "\<not> simulationRunning page0" "\<not> startDisabled page0"
    by (simp_all add: page0_def)
  show ?thesis
    using h unknown_scenario_plays_default [OF h, of "''easy''" 2] by blast
qed

subsection \<open>Start while paused\<close>

text \<open>
  C4. What the code does on the trace: start the ransomware run, deliver three events,
  click the button (pause), click it again (labelled \<open>Resume Simulation\<close>). The second
  click runs the whole start path: the log with its three events is cleared, and the
  delayed start creates a second interval with cursor 0 beside the first one, which is
  still alive with cursor 3. Both then deliver: the new one the event of 00:00, the old
  one the event of 00:12.
\<close>

theorem start_while_paused_restarts:
  "session_status (exec [ClickStart ''ransomware'' ''medium'' [''endpoints''], FireStart 0,
       Tick 0, Tick 0, Tick 0, ClickStart ''ransomware'' ''medium'' [''endpoints'']] page0) = Paused
   \<and> map li_time (logItems (exec [ClickStart ''ransomware'' ''medium'' [''endpoints''], FireStart 0,
       Tick 0, Tick 0, Tick 0, ClickStart ''ransomware'' ''medium'' [''endpoints'']] page0))
       = [''00:00'', ''00:05'', ''00:10'']
   \<and> map iv_i (intervals (exec [ClickStart ''ransomware'' ''medium'' [''endpoints''], FireStart 0,
       Tick 0, Tick 0, Tick 0, ClickStart ''ransomware'' ''medium'' [''endpoints'']] page0)) = [3]
   \<and> logItems (exec [ClickStart ''ransomware'' ''medium'' [''endpoints''], FireStart 0,
       Tick 0, Tick 0, Tick 0, ClickStart ''ransomware'' ''medium'' [''endpoints''],
       ClickStart ''ransomware'' ''medium'' [''endpoints'']] page0) = []
   \<and> map iv_i (intervals (exec [ClickStart ''ransomware'' ''medium'' [''endpoints''], FireStart 0,
       Tick 0, Tick 0, Tick 0, ClickStart ''ransomware'' ''medium'' [''endpoints''],
       ClickStart ''ransomware'' ''medium'' [''endpoints''], FireStart 0] page0)) = [3, 0]
   \<and> map li_time (logItems (exec [ClickStart ''ransomware'' ''medium'' [''endpoints''], FireStart 0,
       Tick 0, Tick 0, Tick 0, ClickStart ''ransomware'' ''medium'' [''endpoints''],
       ClickStart ''ransomware'' ''medium'' [''endpoints''], FireStart 0, Tick 1, Tick 0] page0))
       = [''00:00'', ''00:12'']"
  by (simp add: run_simps session_status_def ransomware_events_def ev_def evd_def eventItem_def)

subsection \<open>Delivery order\<close>

text \<open>
  C5. From a page that is not running and whose start button is enabled, a click on Start
  with some target selected, the delayed start, and then \<open>n\<close> ticks of the interval this
  run has created leave in the event log exactly the first \<open>n\<close> events of the scenario's
  script, rendered in script order: one event per tick, none repeated, none out of order,
  and the whole script (nothing more) once \<open>n\<close> reaches its length. This holds for every
  scenario key.
\<close>

theorem delivery_follows_script:
  assumes "\<not> simulationRunning s" "\<not> startDisabled s" "targets \<noteq> []"
  shows "logItems (exec ([ClickStart scenario difficulty targets, FireStart (length (pendingStarts s))]
                          @ replicate n (Tick (length (intervals s)))) s)
         = map eventItem (take n (getScenarioEvents scenario))"
  using play_deliver [OF assms, of scenario difficulty n] by (simp only: play_def)

theorem delivery_follows_script_witness:
  "\<not> simulationRunning page0 \<and> \<not> startDisabled page0 \<and> [''endpoints''] \<noteq> [] \<and>
   logItems (exec ([ClickStart ''ddos'' ''medium'' [''endpoints''], FireStart 0]
                          @ replicate 2 (Tick 0)) page0)
     = [eventItem (ev ''00:00'' ''network'' ''Unusual increase in traffic detected on external interfaces''),
        eventItem (ev ''00:05'' ''attack'' ''Potential DDoS attack starting - SYN flood pattern detected'')]"
  using delivery_follows_script [of page0 "[''endpoints'']" "''ddos''" "''medium''" 2]
  by (simp add: page0_def getScenarioEvents_def ddos_events_def)

subsection \<open>Event log and defense table\<close>

lemma catalog_defense:
  assumes "catalog_event e" "etype e = ''defense''"
  shows "truthy (defense e)"
proof -
  from assms(1) consider "e \<in> set ransomware_events" | "e \<in> set ddos_events"
    | "e \<in> set data_exfiltration_events" | "e \<in> set default_events"
    unfolding catalog_event_def by auto
  then show ?thesis
  proof cases
    case 1
    then show ?thesis using assms(2)
      unfolding ransomware_events_def by (auto simp: ev_def evd_def truthy_def)
  next
    case 2
    then show ?thesis using assms(2)
      unfolding ddos_events_def by (auto simp: ev_def evd_def truthy_def)
  next
    case 3
    then show ?thesis using assms(2)
      unfolding data_exfiltration_events_def by (auto simp: ev_def evd_def truthy_def)
  next
    case 4
    then show ?thesis using assms(2)
      unfolding default_events_def by (auto simp: ev_def evd_def truthy_def)
  qed
qed

lemma catalog_script: "list_all catalog_event (getScenarioEvents scenario)"
  by (simp add: getScenarioEvents_def catalog_event_def list_all_iff)

lemma ledger_inv_same:
  assumes "ledger_inv s" "logItems s' = logItems s" "tableRows s' = tableRows s"
    "tablePlaceholder s' = tablePlaceholder s"
    "list_all (\<lambda>iv. list_all catalog_event (iv_events iv)) (intervals s')"
  shows "ledger_inv s'"
  using assms unfolding ledger_inv_def by simp

lemma ledger_inv_cleared:
  assumes "logItems s' = []" "tableRows s' = []"
    "list_all (\<lambda>iv. list_all catalog_event (iv_events iv)) (intervals s')"
  shows "ledger_inv s'"
proof -
  have "list_all catalog_event [] \<and> logItems s' = map eventItem []
        \<and> tableRows s' = map defenseRow (filter (\<lambda>e. etype e = ''defense'') [])"
    using assms by simp
  then show ?thesis unfolding ledger_inv_def using assms by blast
qed

lemma ledger_inv_intervals:
  "ledger_inv s \<Longrightarrow> list_all (\<lambda>iv. list_all catalog_event (iv_events iv)) (intervals s)"
  unfolding ledger_inv_def by simp

lemma ledger_inv_tick:
  assumes "ledger_inv s"
  shows "ledger_inv (tick k s)"
proof (cases "k < length (intervals s) \<and> \<not> iv_cleared (intervals s ! k) \<and> simulationRunning s")
  case False
  then show ?thesis using assms by (auto simp: tick_def Let_def)
next
  case live: True
  let ?iv = "intervals s ! k"
  have ivs: "list_all (\<lambda>iv. list_all catalog_event (iv_events iv)) (intervals s)"
    using assms by (rule ledger_inv_intervals)
  have cat: "list_all catalog_event (iv_events ?iv)"
    using ivs live by (simp add: list_all_length)
  show ?thesis
  proof (cases "iv_i ?iv \<ge> length (iv_events ?iv)")
    case True
    have "list_all (\<lambda>iv. list_all catalog_event (iv_events iv))
            ((intervals s)[k := ?iv\<lparr>iv_cleared := True\<rparr>])"
      using ivs cat by (auto simp: list_all_iff dest!: set_update_subset_insert [THEN subsetD])
    then show ?thesis
      using live True assms by (intro ledger_inv_same [OF assms]) (simp_all add: tick_def Let_def)
  next
    case False
    let ?e = "iv_events ?iv ! iv_i ?iv"
    have ce: "catalog_event ?e" using cat False by (simp add: list_all_length)
    from assms obtain es where es: "list_all catalog_event es" "logItems s = map eventItem es"
      "tableRows s = map defenseRow (filter (\<lambda>e. etype e = ''defense'') es)"
      and ph: "tablePlaceholder s \<longrightarrow> tableRows s = []"
      unfolding ledger_inv_def by blast
    have ivs': "list_all (\<lambda>iv. list_all catalog_event (iv_events iv))
            ((intervals s)[k := ?iv\<lparr>iv_eventCount := iv_eventCount ?iv + 1, iv_i := iv_i ?iv + 1\<rparr>])"
      using ivs cat by (auto simp: list_all_iff dest!: set_update_subset_insert [THEN subsetD])
    have tr: "etype ?e = ''defense'' \<Longrightarrow> truthy (defense ?e)"
      using catalog_defense [OF ce] .
    have 1: "list_all catalog_event (es @ [?e])" using es(1) ce by simp
    have 2: "logItems (tick k s) = map eventItem (es @ [?e])"
      using live False es(2) by (simp add: tick_def Let_def addSimulationEvent_def addDefenseAction_def)
    have 3: "tableRows (tick k s) = map defenseRow (filter (\<lambda>e. etype e = ''defense'') (es @ [?e]))"
      using live False es(3) ph tr
      by (auto simp: tick_def Let_def addSimulationEvent_def addDefenseAction_def)
    have 4: "tablePlaceholder (tick k s) \<longrightarrow> tableRows (tick k s) = []"
      using live False ph tr
      by (auto simp: tick_def Let_def addSimulationEvent_def addDefenseAction_def)
    have 5: "list_all (\<lambda>iv. list_all catalog_event (iv_events iv)) (intervals (tick k s))"
      using live False ivs'
      by (simp add: tick_def Let_def addSimulationEvent_def addDefenseAction_def)
    show ?thesis unfolding ledger_inv_def using 1 2 3 4 5 by blast
  qed
qed

lemma ledger_inv_step:
  assumes "ledger_inv s"
  shows "ledger_inv (step a s)"
proof -
  note ivs = ledger_inv_intervals [OF assms]
  show ?thesis
  proof (cases a)
    case (ClickStart scenario difficulty targets)
    show ?thesis
    proof (cases "startDisabled s \<or> simulationRunning s \<or> targets = []")
      case True
      then show ?thesis using ClickStart ivs
        by (intro ledger_inv_same [OF assms])
          (auto simp: startSimulation_def pauseSimulation_def)
    next
      case False
      then show ?thesis using ClickStart ivs
        by (intro ledger_inv_cleared)
          (auto simp: startSimulation_def initNetworkVisualization_def resetSimulationLogs_def
             Let_def split: option.splits)
    qed
  next
    case ClickReset
    show ?thesis
    proof (cases "resetDisabled s")
      case True
      then show ?thesis using ClickReset assms by simp
    next
      case False
      then show ?thesis using ClickReset ivs
        by (intro ledger_inv_cleared)
          (auto simp: resetSimulation_def resetNetworkVisualization_def resetSimulationLogs_def
             split: option.splits)
    qed
  next
    case (FireStart k)
    show ?thesis
    proof (cases "k < length (pendingStarts s)")
      case False
      then show ?thesis using FireStart assms by simp
    next
      case True
      obtain scenario difficulty targets where cl: "pendingStarts s ! k = (scenario, difficulty, targets)"
        by (cases "pendingStarts s ! k") auto
      show ?thesis using FireStart True cl ivs catalog_script [of scenario]
        by (intro ledger_inv_same [OF assms])
          (auto simp: startCallback_def runSimulation_def updateNetworkForScenario_def
             startInterval_def new_interval_def split: option.splits)
    qed
  next
    case (Tick k)
    then show ?thesis using ledger_inv_tick [OF assms] by simp
  next
    case (FireCompleted name r1 r2)
    then show ?thesis using ivs
      by (intro ledger_inv_same [OF assms])
        (auto simp: simulationCompleted_def showSimulationResults_def)
  next
    case (FireGraph k)
    then show ?thesis using ivs
      by (intro ledger_inv_same [OF assms]) (auto simp: Let_def split: option.splits)
  qed
qed

lemma ledger_inv_page0: "ledger_inv page0"
  by (rule ledger_inv_cleared) (simp_all add: page0_def)

lemma ledger_inv_exec: "ledger_inv s \<Longrightarrow> ledger_inv (exec acts s)"
  by (induction acts arbitrary: s) (simp_all add: exec_Nil exec_Cons ledger_inv_step)

text \<open>
  C6. After any sequence of clicks and timer firings on the page, the event log and the
  defense table are renderings of one sequence \<open>es\<close> of delivered catalog events: the log
  holds every event of \<open>es\<close>, the table exactly one row for each event of \<open>es\<close> whose
  type is \<open>defense\<close> and nothing else, in the same order. So the table is never longer than
  the log.
\<close>

theorem ledger_follows_log:
  "\<exists>es. list_all catalog_event es
      \<and> logItems (exec acts page0) = map eventItem es
      \<and> tableRows (exec acts page0) = map defenseRow (filter (\<lambda>e. etype e = ''defense'') es)
      \<and> length (tableRows (exec acts page0)) \<le> length (logItems (exec acts page0))"
proof -
  have "ledger_inv (exec acts page0)" using ledger_inv_page0 by (rule ledger_inv_exec)
  then obtain es where es: "list_all catalog_event es" "logItems (exec acts page0) = map eventItem es"
      "tableRows (exec acts page0) = map defenseRow (filter (\<lambda>e. etype e = ''defense'') es)"
    unfolding ledger_inv_def by blast
  have "length (tableRows (exec acts page0)) \<le> length (logItems (exec acts page0))"
    unfolding es(2,3) by simp
  with es show ?thesis by blast
qed

theorem ledger_follows_log_witness:
  "logItems (exec ([ClickStart ''ddos'' ''medium'' [''network''], FireStart 0] @ replicate 3 (Tick 0)) page0)
     = map eventItem (take 3 ddos_events)
   \<and> map r_defense (tableRows (exec ([ClickStart ''ddos'' ''medium'' [''network''], FireStart 0]
         @ replicate 3 (Tick 0)) page0)) = [''Traffic shaping'']
   \<and> (\<exists>es. list_all catalog_event es
      \<and> logItems (exec ([ClickStart ''ddos'' ''medium'' [''network''], FireStart 0] @ replicate 3 (Tick 0)) page0)
          = map eventItem es
      \<and> tableRows (exec ([ClickStart ''ddos'' ''medium'' [''network''], FireStart 0] @ replicate 3 (Tick 0)) page0)
          = map defenseRow (filter (\<lambda>e. etype e = ''defense'') es)
      \<and> length (tableRows (exec ([ClickStart ''ddos'' ''medium'' [''network''], FireStart 0]
           @ replicate 3 (Tick 0)) page0))
          \<le> length (logItems (exec ([ClickStart ''ddos'' ''medium'' [''network''], FireStart 0]
           @ replicate 3 (Tick 0)) page0)))"
proof -
  let ?acts = "[ClickStart ''ddos'' ''medium'' [''network''], FireStart 0] @ replicate 3 (Tick 0)"
  have a: "logItems (exec ?acts page0) = map eventItem (take 3 ddos_events)"
    by (simp add: run_simps ddos_events_def ev_def evd_def)
  have b: "map r_defense (tableRows (exec ?acts page0)) = [''Traffic shaping'']"
    by (simp add: run_simps ddos_events_def ev_def evd_def defenseRow_def render_def)
  show ?thesis using a b ledger_follows_log [of ?acts] by blast
qed

subsection \<open>Validation of the target selection\<close>

text \<open>
  C7. When the simulation is not running, \<open>startSimulation\<close> with an empty target
  selection only shows the validation toast: the page (flag and status, event log, defense
  table, topology graph, timers) is returned as it was, so nothing is delivered.
\<close>

theorem start_empty_targets:
  assumes "\<not> simulationRunning s"
  shows "startSimulation scenario difficulty [] s = ([validationToast], s)
       \<and> session_status (snd (startSimulation scenario difficulty [] s)) = session_status s"
  using assms by (simp add: startSimulation_def)

theorem start_empty_targets_witness:
  "\<not> simulationRunning page0
   \<and> startSimulation ''ransomware'' ''medium'' [] page0 = ([validationToast], page0)
   \<and> session_status (snd (startSimulation ''ransomware'' ''medium'' [] page0)) = Idle"
  using start_empty_targets [of page0 "''ransomware''" "''medium''"]
  by (simp add: page0_def session_status_def)

subsection \<open>Scores of the report\<close>

lemma bit_length_le:
  "n < 2 ^ j \<Longrightarrow> bit_length n \<le> j"
proof (induction j arbitrary: n)
  case 0
  then show ?case by (simp add: bit_length.simps)
next
  case (Suc j)
  show ?case
  proof (cases "n = 0")
    case True
    then show ?thesis by (simp add: bit_length.simps)
  next
    case False
    have "n div 2 < 2 ^ j" using Suc.prems by simp
    then have "bit_length (n div 2) \<le> j" by (rule Suc.IH)
    then show ?thesis using False by (subst bit_length.simps) simp
  qed
qed

lemma round_half_even_le: "round_half_even n s * 2 ^ s \<le> n + 2 ^ s"
proof -
  have "round_half_even n s \<le> n div 2 ^ s + 1"
    by (simp add: round_half_even_def Let_def)
  then have "round_half_even n s * 2 ^ s \<le> (n div 2 ^ s + 1) * 2 ^ s"
    by (rule mult_le_mono1)
  also have "\<dots> = n div 2 ^ s * 2 ^ s + 2 ^ s" by (simp add: algebra_simps)
  also have "\<dots> \<le> n + 2 ^ s" by simp
  finally show ?thesis .
qed

text \<open>
  The rounded product of a double below 1 and a constant \<open>c\<close> is at most \<open>c\<close>: rounding
  moves the exact product, which is below \<open>c\<close>, by less than 1.
\<close>

lemma floor_times_le:
  assumes "is_unit_double d" "0 < c" "c \<le> 64"
  shows "0 \<le> floor_times c d \<and> floor_times c d \<le> int c"
proof -
  obtain m k where d: "d = Dbl m k" by (cases d)
  have mk: "m < 2 ^ k" using assms(1) d by (simp add: is_unit_double_def)
  let ?n = "c * m"
  let ?s = "bit_length ?n - 53"
  have "?n \<le> 64 * m" using assms(3) by (rule mult_le_mono1)
  also have "\<dots> < 64 * 2 ^ k" using mk by simp
  finally have "?n < 64 * 2 ^ k" .
  then have "?n < 2 ^ (k + 6)" by (simp add: power_add mult.commute)
  then have "bit_length ?n \<le> k + 6" by (rule bit_length_le)
  then have sk: "?s \<le> k" by simp
  have pw: "(2::nat) ^ ?s \<le> 2 ^ k" using sk by (simp add: power_increasing)
  have "Suc m \<le> 2 ^ k" using mk by simp
  then have "c * Suc m \<le> c * 2 ^ k" by (rule mult_le_mono2)
  then have n: "?n + c \<le> c * 2 ^ k" by simp
  have "times_double c d \<le> ?n + 2 ^ ?s"
    using round_half_even_le [of ?n ?s] d by (simp add: times_double_def Let_def)
  also have "\<dots> < ?n + c + 2 ^ k" using pw assms(2) by linarith
  also have "\<dots> \<le> c * 2 ^ k + 2 ^ k" using n by simp
  also have "\<dots> = Suc c * 2 ^ k" by simp
  finally have "times_double c d div 2 ^ k < Suc c"
    by (simp add: less_mult_imp_div_less)
  then show ?thesis using d by (simp add: floor_times_def)
qed

lemma floor_exact_product:
  "\<lfloor>value_of d * real c\<rfloor> = int (c * mantissa d div 2 ^ exponent d)"
proof -
  have "value_of d * real c = real (c * mantissa d) / real (2 ^ exponent d)"
    by (simp add: value_of_def)
  then show ?thesis by (simp only: floor_divide_of_nat_eq)
qed

text \<open>
  C8, as stated, fails in its formula: the scores are floors of double products, and a
  double product can round up to an integer that the exact product does not reach. For the
  doubles \<open>2852279764001314 / 2 ^ 52\<close> and \<open>2071655828590428 / 2 ^ 52\<close> the report shows
  the scores 84 and 43, where \<open>floor (r1 * 30) + 65\<close> and \<open>floor (r2 * 50) + 20\<close> in exact
  arithmetic are 83 and 42.
\<close>

theorem exact_score_formula_counterexample:
  "is_unit_double (Dbl 2852279764001314 52) \<and> is_unit_double (Dbl 2071655828590428 52)
   \<and> resultsModal (simulationCompleted ''Ransomware Attack''
        (Dbl 2852279764001314 52) (Dbl 2071655828590428 52) page0) =
       Some \<lparr>scenarioName = ''Ransomware Attack'', duration = ''1 minute 15 seconds'',
             defenseScore = 84, attackScore = 43\<rparr>
   \<and> \<lfloor>value_of (Dbl 2852279764001314 52) * 30\<rfloor> + 65 = 83
   \<and> \<lfloor>value_of (Dbl 2071655828590428 52) * 50\<rfloor> + 20 = 42"
proof -
  have v: "is_unit_double (Dbl 2852279764001314 52)" "is_unit_double (Dbl 2071655828590428 52)"
    by (simp_all add: is_unit_double_def)
  have b1: "bit_length 85568392920039420 = 57"
    by (simp add: bit_length.simps)
  have b2: "bit_length 103582791429521400 = 57"
    by (simp add: bit_length.simps)
  have f1: "floor_times 30 (Dbl 2852279764001314 52) = 19"
    by (simp add: floor_times_def times_double_def b1 round_half_even_def Let_def)
  have f2: "floor_times 50 (Dbl 2071655828590428 52) = 23"
    by (simp add: floor_times_def times_double_def b2 round_half_even_def Let_def)
  have e1: "\<lfloor>value_of (Dbl 2852279764001314 52) * 30\<rfloor> = 18"
    using floor_exact_product [of "Dbl 2852279764001314 52" 30] by simp
  have e2: "\<lfloor>value_of (Dbl 2071655828590428 52) * 50\<rfloor> = 22"
    using floor_exact_product [of "Dbl 2071655828590428 52" 50] by simp
  show ?thesis
    using v f1 f2 e1 e2 by (simp add: simulationCompleted_def showSimulationResults_def)
qed

text \<open>
  C8, amended. For all values \<open>r1\<close>, \<open>r2\<close> of the randomness source (doubles in
  \<open>[0, 1)\<close>), the report shown at completion has \<open>defenseScore\<close> in \<open>[65, 95]\<close> and
  \<open>attackScore\<close> in \<open>[20, 70]\<close>, where \<open>defenseScore\<close> is 65 plus the floor of the double
  product of \<open>r1\<close> and 30, and \<open>attackScore\<close> is 20 plus the floor of the double product of
  \<open>r2\<close> and 50 (products rounded to nearest, ties to even).
\<close>

theorem scores_in_range:
  assumes "is_unit_double r1" "is_unit_double r2"
  shows "resultsModal (simulationCompleted name r1 r2 s) =
           Some \<lparr>scenarioName = name, duration = ''1 minute 15 seconds'',
                 defenseScore = floor_times 30 r1 + 65, attackScore = floor_times 50 r2 + 20\<rparr>
       \<and> 65 \<le> floor_times 30 r1 + 65 \<and> floor_times 30 r1 + 65 \<le> 95
       \<and> 20 \<le> floor_times 50 r2 + 20 \<and> floor_times 50 r2 + 20 \<le> 70"
  using floor_times_le [OF assms(1), of 30] floor_times_le [OF assms(2), of 50]
  by (simp add: simulationCompleted_def showSimulationResults_def)

theorem scores_in_range_witness:
  "is_unit_double (Dbl 4503599627370496 53) \<and> is_unit_double (Dbl 8106479329266893 53)
   \<and> resultsModal (simulationCompleted ''DDoS Attack''
        (Dbl 4503599627370496 53) (Dbl 8106479329266893 53) page0) =
       Some \<lparr>scenarioName = ''DDoS Attack'', duration = ''1 minute 15 seconds'',
             defenseScore = 80, attackScore = 65\<rparr>"
proof -
  have v: "is_unit_double (Dbl 4503599627370496 53)" "is_unit_double (Dbl 8106479329266893 53)"
    by (simp_all add: is_unit_double_def)
  have b1: "bit_length 135107988821114880 = 57"
    by (simp add: bit_length.simps)
  have b2: "bit_length 405323966463344650 = 59"
    by (simp add: bit_length.simps)
  have f1: "floor_times 30 (Dbl 4503599627370496 53) = 15"
    by (simp add: floor_times_def times_double_def b1 round_half_even_def Let_def)
  have f2: "floor_times 50 (Dbl 8106479329266893 53) = 45"
    by (simp add: floor_times_def times_double_def b2 round_half_even_def Let_def)
  show ?thesis
    using v scores_in_range [OF v, of "''DDoS Attack''" page0] by (simp add: f1 f2)
qed

subsection \<open>Completion\<close>

text \<open>
  C9. For every scenario key, from a page that is not running and whose start button is
  enabled, a run started with some target selected and ticked once more than its script is
  long (and any number \<open>m\<close> of further times) has cleared its interval and scheduled the
  completion callback exactly once; when that callback fires the session is completed and
  the results modal holds a report, and later ticks of the interval change nothing. The same
  holds for an interval created for an empty script on a running page: its first tick
  schedules the completion.
\<close>

theorem run_reaches_completion:
  assumes "\<not> simulationRunning s" "\<not> startDisabled s" "targets \<noteq> []" "simulationRunning u"
  shows "(let a = play scenario difficulty targets (length (getScenarioEvents scenario) + 1 + m) s;
              c = step (FireCompleted name r1 r2) a
          in pendingCompletions a = pendingCompletions s + 1
           \<and> session_status c = Completed \<and> resultsModal c \<noteq> None
           \<and> pendingCompletions c = pendingCompletions s
           \<and> exec (replicate m' (Tick (length (intervals s)))) c = c)
       \<and> (let a = exec (replicate (1 + m) (Tick (length (intervals u)))) (startInterval [] u);
              c = step (FireCompleted name r1 r2) a
          in pendingCompletions a = pendingCompletions u + 1
           \<and> session_status c = Completed \<and> resultsModal c \<noteq> None
           \<and> pendingCompletions c = pendingCompletions u
           \<and> exec (replicate m' (Tick (length (intervals u)))) c = c)"
proof -
  let ?n = "length (getScenarioEvents scenario) + 1 + m"
  have gt: "length (getScenarioEvents scenario) < ?n" by simp
  note p = play_complete [OF assms(1-3) gt, of difficulty]
  let ?a = "play scenario difficulty targets ?n s"
  let ?c = "step (FireCompleted name r1 r2) ?a"
  note f = completed_after_fire [OF p(5), of name r1 r2]
  have kc: "length (intervals s) < length (intervals ?c)" using f p(3) by simp
  have cc: "iv_cleared (intervals ?c ! length (intervals s))" using f p(2) by simp
  have A: "exec (replicate m' (Tick (length (intervals s)))) ?c = ?c"
    using tick_cleared [OF kc cc, of m'] by (simp only: exec_ticks)
  let ?v = "startInterval [] u"
  let ?k = "length (intervals u)"
  have v1: "simulationRunning ?v" using assms(4) by (simp add: startInterval_def)
  have v2: "?k < length (intervals ?v)" by (simp add: startInterval_def)
  have v3: "intervals ?v ! ?k = new_interval []" by (simp add: startInterval_def)
  have v4: "length ([]::event list) < 1 + m" by simp
  note t = ticks_complete [OF v1 v2 v3 v4]
  let ?b = "exec (replicate (1 + m) (Tick ?k)) ?v"
  have b: "?b = (tick ?k ^^ (1 + m)) ?v" by (rule exec_ticks)
  have pb: "pendingCompletions ?b = Suc (pendingCompletions u)"
    unfolding b using t by (simp add: startInterval_def)
  let ?d = "step (FireCompleted name r1 r2) ?b"
  note g = completed_after_fire [OF pb, of name r1 r2]
  have ib: "intervals ?b = (intervals ?v)[?k := \<lparr>iv_events = [], iv_i = 0, iv_eventCount = 0,
                                  iv_cleared = True\<rparr>]"
    unfolding b using t by simp
  have kd: "?k < length (intervals ?d)" using g ib v2 by simp
  have cd: "iv_cleared (intervals ?d ! ?k)" using g ib v2 by simp
  have B: "exec (replicate m' (Tick ?k)) ?d = ?d"
    using tick_cleared [OF kd cd, of m'] by (simp only: exec_ticks)
  show ?thesis
    unfolding Let_def using p(5) f A pb g B by simp
qed

theorem run_reaches_completion_witness:
  "\<not> simulationRunning page0 \<and> \<not> startDisabled page0 \<and> [''endpoints''] \<noteq> []
   \<and> simulationRunning (page0\<lparr>simulationRunning := True\<rparr>)
   \<and> pendingCompletions (play ''ddos'' ''medium'' [''endpoints''] 17 page0) = 1
   \<and> session_status (step (FireCompleted ''DDoS Attack'' (Dbl 1 1) (Dbl 1 2))
         (play ''ddos'' ''medium'' [''endpoints''] 17 page0)) = Completed
   \<and> resultsModal (step (FireCompleted ''DDoS Attack'' (Dbl 1 1) (Dbl 1 2))
         (play ''ddos'' ''medium'' [''endpoints''] 17 page0)) \<noteq> None
   \<and> session_status (step (FireCompleted ''DDoS Attack'' (Dbl 1 1) (Dbl 1 2))
         (exec (replicate 1 (Tick 0)) (startInterval [] (page0\<lparr>simulationRunning := True\<rparr>)))) = Completed"
proof -
  have h1: "\<not> simulationRunning page0" and h2: "\<not> startDisabled page0"
    and h3: "[''endpoints''] \<noteq> []"
    and h4: "simulationRunning (page0\<lparr>simulationRunning := True\<rparr>)"
    by (simp_all add: page0_def)
  have len: "length (getScenarioEvents ''ddos'') + 1 + 0 = 17"
    by (simp add: getScenarioEvents_def ddos_events_def)
  have one: "1 + 0 = (1::nat)" by simp
  have pc: "pendingCompletions page0 = 0" "pendingCompletions (page0\<lparr>simulationRunning := True\<rparr>) = 0"
    "intervals (page0\<lparr>simulationRunning := True\<rparr>) = []"
    by (simp_all add: page0_def)
  note t = run_reaches_completion [OF h1 h2 h3 h4, of "''ddos''" "''medium''" 0
      "''DDoS Attack''" "Dbl 1 1" "Dbl 1 2" 0, unfolded len one Let_def]
  show ?thesis
    using h1 h2 h3 h4 t pc by (simp del: step.simps replicate.simps)
qed

subsection \<open>Pausing twice\<close>

text \<open>
  C10. \<open>pauseSimulation\<close> applied to the page that \<open>pauseSimulation\<close> returns gives that
  same page again, together with the same single notification: the status is paused, and the
  intervals (with their cursors) are those of the page before the first call. Pause after
  pause is pause.
\<close>

theorem pause_twice_is_pause:
  "pauseSimulation (snd (pauseSimulation s)) = pauseSimulation s
   \<and> session_status (snd (pauseSimulation s)) = Paused
   \<and> intervals (snd (pauseSimulation s)) = intervals s"
  by (simp add: pauseSimulation_def session_status_def)

end
